theory Spec2Isabelle
  imports Main "HOL-Library.Sublist"
begin

section \<open>Python strings\<close>

text \<open>
  A Python \<^verbatim>\<open>str\<close> is a sequence of Unicode code points, so it is modelled as a list of
  natural numbers. \<open>ascii\<close> turns a printable literal into its code points; text that is
  not printable ASCII (the Chinese messages and prompts of \<^verbatim>\<open>contract_tool.py\<close>, line
  feeds) is written as the list of its code points.
\<close>

type_synonym pystr = "nat list"

definition ascii :: "string \<Rightarrow> pystr" where
  "ascii s = map of_char s"

text \<open>The characters \<^verbatim>\<open>str.isspace\<close> accepts: these are what \<^verbatim>\<open>str.strip()\<close> removes.\<close>

definition py_isspace :: "nat \<Rightarrow> bool" where
  "py_isspace c =
     ((9 \<le> c \<and> c \<le> 13) \<or> (28 \<le> c \<and> c \<le> 32) \<or> c = 133 \<or> c = 160 \<or> c = 5760 \<or>
      (8192 \<le> c \<and> c \<le> 8202) \<or> c = 8232 \<or> c = 8233 \<or> c = 8239 \<or> c = 8287 \<or>
      c = 12288)"

text \<open>Removing from both ends of a text the characters that satisfy \<open>P\<close>.\<close>

definition trim :: "(nat \<Rightarrow> bool) \<Rightarrow> pystr \<Rightarrow> pystr" where
  "trim P s = rev (dropWhile P (rev (dropWhile P s)))"

definition str_strip :: "pystr \<Rightarrow> pystr" where
  "str_strip s = trim py_isspace s"

text \<open>
  \<^verbatim>\<open>s.replace(old, new)\<close>: the occurrences of \<open>old\<close> are found from the left and do not
  overlap; an empty \<open>old\<close> matches before every character and at the end.
\<close>

function str_replace :: "pystr \<Rightarrow> pystr \<Rightarrow> pystr \<Rightarrow> pystr" where
  "str_replace s old new =
     (if old = [] then new @ concat (map (\<lambda>c. c # new) s)
      else if s = [] then []
      else if prefix old s then new @ str_replace (drop (length old) s) old new
      else hd s # str_replace (tl s) old new)"
  by pat_completeness auto
termination
  by (relation "measure (\<lambda>(s, old, new). length s)") auto

declare str_replace.simps [simp del]

text \<open>Decimal text of an integer, as \<^verbatim>\<open>str(n)\<close> and an f-string give it.\<close>

fun nat_digits :: "nat \<Rightarrow> pystr" where
  "nat_digits n = (if n < 10 then [48 + n] else nat_digits (n div 10) @ [48 + n mod 10])"

declare nat_digits.simps [simp del]

definition int_str :: "int \<Rightarrow> pystr" where
  "int_str i = (if i < 0 then 45 # nat_digits (nat (- i)) else nat_digits (nat i))"

section \<open>Python values\<close>

text \<open>
  The values \<^verbatim>\<open>json.loads\<close> produces and the program passes around: \<^verbatim>\<open>None\<close>, booleans,
  integers, floats, strings, lists and dicts with string keys. A float is kept as the
  decimal text that denotes it (floating-point rounding is not modelled); a dict is an
  association list in insertion order with distinct keys.
\<close>

datatype pyval =
    PNone
  | PBool bool
  | PInt int
  | PFloat pystr
  | PStr pystr
  | PList "pyval list"
  | PDict "(pystr \<times> pyval) list"

text \<open>\<^verbatim>\<open>d[k] = v\<close>: an existing key keeps its position, a new key goes last.\<close>

fun dict_set :: "(pystr \<times> pyval) list \<Rightarrow> pystr \<Rightarrow> pyval \<Rightarrow> (pystr \<times> pyval) list" where
  "dict_set [] k v = [(k, v)]"
| "dict_set ((k', v') # kvs) k v =
     (if k' = k then (k, v) # kvs else (k', v') # dict_set kvs k v)"

text \<open>\<^verbatim>\<open>d.get(k, default)\<close>.\<close>

definition dict_get :: "(pystr \<times> pyval) list \<Rightarrow> pystr \<Rightarrow> pyval \<Rightarrow> pyval" where
  "dict_get d k dflt = (case map_of d k of Some v \<Rightarrow> v | None \<Rightarrow> dflt)"

section \<open>The JSON decoder\<close>

text \<open>
  \<^verbatim>\<open>json.loads\<close> of the standard library, for a \<^verbatim>\<open>str\<close> argument and default options
  (strict mode, \<^verbatim>\<open>NaN\<close> and the infinities accepted, later duplicate keys win). \<open>None\<close>
  stands for the exception it raises. The decoder skips the white space before and
  after the document; the text between is cut into tokens, white space between tokens
  is dropped, and a stack machine builds the value.

  Two limits of the interpreter make the decoder raise on a text that is JSON: an
  integer with more digits than \<^verbatim>\<open>sys.get_int_max_str_digits()\<close> (4300 by default, 0 for
  no limit) raises \<^verbatim>\<open>ValueError\<close>, and containers nested deeper than the stack allows
  raise \<^verbatim>\<open>RecursionError\<close>. Both are given to the decoder; the depth that is available
  depends on the interpreter and on the call stack, so it is a number of the
  environment.
\<close>

record decoder_limits =
  int_max_str_digits :: nat
  max_nesting :: nat

definition json_ws :: "nat \<Rightarrow> bool" where
  "json_ws c = (c = 32 \<or> c = 9 \<or> c = 10 \<or> c = 13)"

definition is_digit :: "nat \<Rightarrow> bool" where
  "is_digit c = (48 \<le> c \<and> c \<le> 57)"

definition hexval :: "nat \<Rightarrow> nat option" where
  "hexval c =
     (if 48 \<le> c \<and> c \<le> 57 then Some (c - 48)
      else if 97 \<le> c \<and> c \<le> 102 then Some (c - 87)
      else if 65 \<le> c \<and> c \<le> 70 then Some (c - 55)
      else None)"

text \<open>The four hexadecimal digits of a \<^verbatim>\<open>\uXXXX\<close> escape.\<close>

definition hex4 :: "pystr \<Rightarrow> nat option" where
  "hex4 s =
     (case s of
        a # b # c # d # _ \<Rightarrow>
          (case (hexval a, hexval b, hexval c, hexval d) of
             (Some x, Some y, Some z, Some w) \<Rightarrow> Some (((x * 16 + y) * 16 + z) * 16 + w)
           | _ \<Rightarrow> None)
      | _ \<Rightarrow> None)"

definition backslash_escape :: "nat \<Rightarrow> nat option" where
  "backslash_escape e =
     (if e = 34 then Some 34 else if e = 92 then Some 92 else if e = 47 then Some 47
      else if e = 98 then Some 8 else if e = 102 then Some 12 else if e = 110 then Some 10
      else if e = 114 then Some 13 else if e = 116 then Some 9 else None)"

definition push_char :: "nat \<Rightarrow> (pystr \<times> pystr) option \<Rightarrow> (pystr \<times> pystr) option" where
  "push_char c r = (case r of None \<Rightarrow> None | Some (s, rest) \<Rightarrow> Some (c # s, rest))"

text \<open>
  The body of a string literal, from the character after the opening quote: the decoded
  string and the text after the closing quote. Code 34 is the quote, 92 the backslash,
  117 the letter u. A high surrogate followed by an escaped low surrogate is joined
  into one code point.
\<close>

fun scanstring :: "pystr \<Rightarrow> (pystr \<times> pystr) option" where
  "scanstring [] = None"
| "scanstring (c # cs) =
     (if c = 34 then Some ([], cs)
      else if c = 92 then
        (case cs of
           [] \<Rightarrow> None
         | e # cs' \<Rightarrow>
             if e = 117 then
               (case hex4 cs' of
                  None \<Rightarrow> None
                | Some u \<Rightarrow>
                    if 55296 \<le> u \<and> u \<le> 56319 \<and> take 2 (drop 4 cs') = [92, 117] then
                      (case hex4 (drop 6 cs') of
                         None \<Rightarrow> None
                       | Some u2 \<Rightarrow>
                           if 56320 \<le> u2 \<and> u2 \<le> 57343
                           then push_char (65536 + (u - 55296) * 1024 + (u2 - 56320))
                                  (scanstring (drop 10 cs'))
                           else push_char u (scanstring (drop 4 cs')))
                    else push_char u (scanstring (drop 4 cs')))
             else
               (case backslash_escape e of
                  None \<Rightarrow> None
                | Some x \<Rightarrow> push_char x (scanstring cs')))
      else if c < 32 then None
      else push_char c (scanstring cs))"

definition digits_value :: "pystr \<Rightarrow> nat" where
  "digits_value ds = foldl (\<lambda>a d. 10 * a + (d - 48)) 0 ds"

text \<open>
  A number: an optional minus sign (45), an integer part without leading zeros, an
  optional fraction and an optional exponent. Without fraction and exponent it is an
  \<^verbatim>\<open>int\<close>, otherwise a \<^verbatim>\<open>float\<close>. Each part is returned with the text after it. An
  \<^verbatim>\<open>int\<close> with more than \<open>maxd\<close> digits is an error, unless \<open>maxd\<close> is 0.
\<close>

definition scan_sign :: "pystr \<Rightarrow> pystr \<times> pystr" where
  "scan_sign s = (case s of [] \<Rightarrow> ([], s) | c # cs \<Rightarrow> if c = 45 then ([c], cs) else ([], s))"

definition scan_int :: "pystr \<Rightarrow> (pystr \<times> pystr) option" where
  "scan_int s =
     (case s of
        [] \<Rightarrow> None
      | d # ds \<Rightarrow>
          if \<not> is_digit d then None
          else if d = 48 then Some ([d], ds)
          else Some (d # takeWhile is_digit ds, dropWhile is_digit ds))"

definition scan_frac :: "pystr \<Rightarrow> pystr \<times> pystr" where
  "scan_frac s =
     (case s of
        p # f # fs \<Rightarrow>
          if p = 46 \<and> is_digit f then (p # f # takeWhile is_digit fs, dropWhile is_digit fs)
          else ([], s)
      | _ \<Rightarrow> ([], s))"

definition scan_exp_sign :: "pystr \<Rightarrow> pystr \<times> pystr" where
  "scan_exp_sign s =
     (case s of [] \<Rightarrow> ([], s) | x # xs \<Rightarrow> if x = 43 \<or> x = 45 then ([x], xs) else ([], s))"

definition scan_exp :: "pystr \<Rightarrow> pystr \<times> pystr" where
  "scan_exp s =
     (case s of
        [] \<Rightarrow> ([], s)
      | e # es \<Rightarrow>
          if e = 101 \<or> e = 69 then
            (let (sg, es') = scan_exp_sign es
             in if takeWhile is_digit es' \<noteq> []
                then (e # sg @ takeWhile is_digit es', dropWhile is_digit es')
                else ([], s))
          else ([], s))"

definition scan_number :: "nat \<Rightarrow> pystr \<Rightarrow> (pyval \<times> pystr) option" where
  "scan_number maxd s =
     (let (sign, s1) = scan_sign s in
      case scan_int s1 of
        None \<Rightarrow> None
      | Some (ip, s2) \<Rightarrow>
          let (fp, s3) = scan_frac s2;
              (ep, s4) = scan_exp s3
          in if fp = [] \<and> ep = [] then
               (if maxd \<noteq> 0 \<and> maxd < length ip then None
                else Some (PInt ((if sign = [] then 1 else - 1) * int (digits_value ip)), s4))
             else Some (PFloat (sign @ ip @ fp @ ep), s4))"

datatype token =
    TLBrace | TRBrace | TLBracket | TRBracket | TComma | TColon | TScalar pyval

definition cons_token :: "token \<Rightarrow> token list option \<Rightarrow> token list option" where
  "cons_token t r = (case r of None \<Rightarrow> None | Some ts \<Rightarrow> Some (t # ts))"

lemma push_char_Some: "push_char c q = Some (x, r) \<Longrightarrow> \<exists>x'. q = Some (x', r)"
  by (auto simp: push_char_def split: option.splits)

lemma scanstring_shorter: "scanstring s = Some (x, r) \<Longrightarrow> length r < length s"
proof (induction "length s" arbitrary: s x r rule: less_induct)
  case less
  show ?case
  proof (cases s)
    case Nil
    with less.prems show ?thesis by simp
  next
    case (Cons c cs)
    have IH: "length s' \<le> length cs \<longrightarrow> length r < length s'"
      if "scanstring s' = Some (x', r)" for s' x'
      using less.hyps[OF _ that] Cons by simp
    from less.prems Cons show ?thesis
      by (auto split: if_splits list.splits option.splits dest!: push_char_Some IH)
  qed
qed

lemma scan_sign_split: "scan_sign s = (a, r) \<Longrightarrow> s = a @ r"
  by (auto simp: scan_sign_def split: list.splits if_splits)

lemma scan_int_split: "scan_int s = Some (a, r) \<Longrightarrow> s = a @ r \<and> a \<noteq> []"
  by (auto simp: scan_int_def split: list.splits if_splits)

lemma scan_frac_split: "scan_frac s = (a, r) \<Longrightarrow> s = a @ r"
  by (auto simp: scan_frac_def split: list.splits if_splits)

lemma scan_exp_sign_split: "scan_exp_sign s = (a, r) \<Longrightarrow> s = a @ r"
  by (auto simp: scan_exp_sign_def split: list.splits if_splits)

lemma scan_exp_split: "scan_exp s = (a, r) \<Longrightarrow> s = a @ r"
proof (cases s)
  case Nil
  then show "scan_exp s = (a, r) \<Longrightarrow> s = a @ r" by (simp add: scan_exp_def)
next
  case (Cons e es)
  assume a: "scan_exp s = (a, r)"
  obtain sg es' where sg: "scan_exp_sign es = (sg, es')" by (cases "scan_exp_sign es")
  from scan_exp_sign_split[OF sg] have es: "es = sg @ es'" .
  from a Cons sg es show "s = a @ r"
    by (auto simp: scan_exp_def split: if_splits)
qed

lemma scan_number_split:
  assumes "scan_number maxd s = Some (v, r)"
  shows "\<exists>pre. s = pre @ r \<and> pre \<noteq> []"
proof -
  obtain sign s1 where s1: "scan_sign s = (sign, s1)" by (cases "scan_sign s")
  from assms s1 obtain ip s2 where s2: "scan_int s1 = Some (ip, s2)"
    by (auto simp: scan_number_def split: option.splits)
  obtain fp s3 where s3: "scan_frac s2 = (fp, s3)" by (cases "scan_frac s2")
  obtain ep s4 where s4: "scan_exp s3 = (ep, s4)" by (cases "scan_exp s3")
  from assms s1 s2 s3 s4 have r: "r = s4"
    by (simp add: scan_number_def split: if_splits)
  from scan_sign_split[OF s1] scan_int_split[OF s2] scan_frac_split[OF s3]
    scan_exp_split[OF s4] r
  have "s = (sign @ ip @ fp @ ep) @ r" and "sign @ ip @ fp @ ep \<noteq> []" by simp_all
  then show ?thesis by blast
qed

lemma scan_number_shorter:
  "scan_number maxd s = Some (v, r) \<Longrightarrow> length r < length s"
  using scan_number_split[of maxd s v r] by auto

text \<open>
  The named constants: \<^verbatim>\<open>null\<close>, \<^verbatim>\<open>true\<close>, \<^verbatim>\<open>false\<close>, \<^verbatim>\<open>NaN\<close>, \<^verbatim>\<open>Infinity\<close> and \<^verbatim>\<open>-Infinity\<close>,
  each with the text after it.
\<close>

definition scan_literal :: "pystr \<Rightarrow> (pyval \<times> pystr) option" where
  "scan_literal s =
     (if prefix (ascii ''null'') s then Some (PNone, drop 4 s)
      else if prefix (ascii ''true'') s then Some (PBool True, drop 4 s)
      else if prefix (ascii ''false'') s then Some (PBool False, drop 5 s)
      else if prefix (ascii ''NaN'') s then Some (PFloat (ascii ''NaN''), drop 3 s)
      else if prefix (ascii ''Infinity'') s then Some (PFloat (ascii ''Infinity''), drop 8 s)
      else if prefix (ascii ''-Infinity'') s then Some (PFloat (ascii ''-Infinity''), drop 9 s)
      else None)"

lemma scan_literal_shorter: "scan_literal s = Some (v, r) \<Longrightarrow> length r < length s"
  by (cases s) (auto simp: scan_literal_def ascii_def split: if_splits)

text \<open>
  The tokens of a text. After white space, punctuation and strings, the scanner looks
  for a named constant and then for a number; any other character is an error.
\<close>

function tokenize :: "nat \<Rightarrow> pystr \<Rightarrow> token list option" where
  "tokenize maxd [] = Some []"
| "tokenize maxd (c # cs) =
     (if json_ws c then tokenize maxd cs
      else if c = 123 then cons_token TLBrace (tokenize maxd cs)
      else if c = 125 then cons_token TRBrace (tokenize maxd cs)
      else if c = 91 then cons_token TLBracket (tokenize maxd cs)
      else if c = 93 then cons_token TRBracket (tokenize maxd cs)
      else if c = 44 then cons_token TComma (tokenize maxd cs)
      else if c = 58 then cons_token TColon (tokenize maxd cs)
      else if c = 34 then
        (case scanstring cs of
           None \<Rightarrow> None
         | Some (s, r) \<Rightarrow> cons_token (TScalar (PStr s)) (tokenize maxd r))
      else
        (case scan_literal (c # cs) of
           Some (v, r) \<Rightarrow> cons_token (TScalar v) (tokenize maxd r)
         | None \<Rightarrow>
             (case scan_number maxd (c # cs) of
                None \<Rightarrow> None
              | Some (v, r) \<Rightarrow> cons_token (TScalar v) (tokenize maxd r))))"
  by pat_completeness auto
termination
  by (relation "measure (\<lambda>(maxd, s). length s)")
     (auto dest: scanstring_shorter scan_number_shorter scan_literal_shorter)

text \<open>
  The stack machine. A frame is a container under construction: the elements of an
  array so far, or the pairs of an object so far with the key that awaits its value.
  Opening a container when \<open>depth\<close> containers are open already is an error.
\<close>

datatype frame =
    ArrayFrame "pyval list"
  | ObjectFrame "(pystr \<times> pyval) list" "pystr option"

datatype pmode =
    WantValue | WantValueOrEnd | WantKey | WantKeyOrEnd | WantColon | AfterValue
  | Finished pyval

type_synonym pstate = "frame list \<times> pmode"

definition complete_value :: "pyval \<Rightarrow> frame list \<Rightarrow> pstate option" where
  "complete_value v st =
     (case st of
        [] \<Rightarrow> Some ([], Finished v)
      | ArrayFrame acc # st' \<Rightarrow> Some (ArrayFrame (acc @ [v]) # st', AfterValue)
      | ObjectFrame kvs None # st' \<Rightarrow> None
      | ObjectFrame kvs (Some k) # st' \<Rightarrow>
          Some (ObjectFrame (dict_set kvs k v) None # st', AfterValue))"

definition begin_value :: "nat \<Rightarrow> token \<Rightarrow> frame list \<Rightarrow> pstate option" where
  "begin_value depth t st =
     (case t of
        TScalar v \<Rightarrow> complete_value v st
      | TLBracket \<Rightarrow>
          if length st < depth then Some (ArrayFrame [] # st, WantValueOrEnd) else None
      | TLBrace \<Rightarrow>
          if length st < depth then Some (ObjectFrame [] None # st, WantKeyOrEnd) else None
      | _ \<Rightarrow> None)"

definition take_key :: "token \<Rightarrow> frame list \<Rightarrow> pstate option" where
  "take_key t st =
     (case (t, st) of
        (TScalar (PStr k), ObjectFrame kvs _ # st') \<Rightarrow>
          Some (ObjectFrame kvs (Some k) # st', WantColon)
      | _ \<Rightarrow> None)"

definition end_container :: "token \<Rightarrow> frame list \<Rightarrow> pstate option" where
  "end_container t st =
     (case (t, st) of
        (TRBracket, ArrayFrame acc # st') \<Rightarrow> complete_value (PList acc) st'
      | (TRBrace, ObjectFrame kvs None # st') \<Rightarrow> complete_value (PDict kvs) st'
      | _ \<Rightarrow> None)"

definition parse_step :: "nat \<Rightarrow> pstate \<Rightarrow> token \<Rightarrow> pstate option" where
  "parse_step depth ps t =
     (case ps of
        (st, WantValue) \<Rightarrow> begin_value depth t st
      | (st, WantValueOrEnd) \<Rightarrow>
          if t = TRBracket then end_container t st else begin_value depth t st
      | (st, WantKey) \<Rightarrow> take_key t st
      | (st, WantKeyOrEnd) \<Rightarrow>
          if t = TRBrace then end_container t st else take_key t st
      | (st, WantColon) \<Rightarrow> if t = TColon then Some (st, WantValue) else None
      | (st, AfterValue) \<Rightarrow>
          if t = TComma then
            (case st of
               [] \<Rightarrow> None
             | ArrayFrame _ # _ \<Rightarrow> Some (st, WantValue)
             | ObjectFrame _ _ # _ \<Rightarrow> Some (st, WantKey))
          else end_container t st
      | (st, Finished v) \<Rightarrow> None)"

fun parse_tokens :: "nat \<Rightarrow> pstate \<Rightarrow> token list \<Rightarrow> pyval option" where
  "parse_tokens depth (st, m) [] = (case m of Finished v \<Rightarrow> Some v | _ \<Rightarrow> None)"
| "parse_tokens depth ps (t # ts) =
     (case parse_step depth ps t of
        None \<Rightarrow> None
      | Some ps' \<Rightarrow> parse_tokens depth ps' ts)"

definition json_loads :: "decoder_limits \<Rightarrow> pystr \<Rightarrow> pyval option" where
  "json_loads lim s =
     (case tokenize (int_max_str_digits lim) (trim json_ws s) of
        None \<Rightarrow> None
      | Some ts \<Rightarrow> parse_tokens (max_nesting lim) ([], WantValue) ts)"

text \<open>
  Two predicates on texts for the proofs about the tokenizer: \<open>consumed Q s r\<close> says that
  \<open>r\<close> is what is left of \<open>s\<close> after a part that is not empty and ends in a character
  with \<open>Q\<close>; \<open>good_end s\<close> says that \<open>s\<close> does not end in a character that
  \<^verbatim>\<open>str.strip\<close> removes and the decoder does not skip.
\<close>

definition consumed :: "(nat \<Rightarrow> bool) \<Rightarrow> pystr \<Rightarrow> pystr \<Rightarrow> bool" where
  "consumed Q s r = (\<exists>pre. s = pre @ r \<and> pre \<noteq> [] \<and> Q (last pre))"

definition good_end :: "pystr \<Rightarrow> bool" where
  "good_end s = (s = [] \<or> json_ws (last s) \<or> \<not> py_isspace (last s))"

section \<open>Exceptions and the world outside the program\<close>

text \<open>
  An exception is a value. Only exceptions of class \<^verbatim>\<open>Exception\<close> are modelled (what
  \<^verbatim>\<open>except Exception\<close> catches); \<open>OtherError\<close> stands for any exception a library raises,
  with a description that tells one from another.
\<close>

datatype pyexception =
    KeyError pyval
  | IndexError
  | TypeError
  | AttributeError
  | OtherError pystr

text \<open>
  What \<^verbatim>\<open>requests.post\<close> is given: the URL, the headers, and the dict \<open>data\<close> whose
  \<^verbatim>\<open>json.dumps\<close> text is the body (the serialisation of the body is not modelled).
\<close>

record request =
  req_url :: pystr
  req_headers :: "(pystr \<times> pystr) list"
  req_data :: pyval

text \<open>
  What the program reads of a response: \<^verbatim>\<open>status_code\<close>, \<^verbatim>\<open>text\<close>, and the outcome of
  \<^verbatim>\<open>json()\<close>, which is the decoded body or the exception raised for a body that is not
  JSON.
\<close>

record response =
  status_code :: int
  resp_text :: pystr
  resp_json :: "pyexception + pyval"

text \<open>
  The environment of a run. The remote service is a state \<open>'w\<close> and a function that
  answers a request in a state, with a response or with the exception the transport
  raises, and gives the next state. \<open>json_dumps\<close> is
  \<^verbatim>\<open>json.dumps(v, ensure_ascii=False, indent=2)\<close>, which may raise; \<open>str_of_value\<close> is
  \<^verbatim>\<open>str(v)\<close> for a value that is not a string; \<open>str_of_exception\<close> is \<^verbatim>\<open>str(e)\<close>;
  \<open>json_limits\<close> are the limits in force where the agents call \<^verbatim>\<open>json.loads\<close>.
\<close>

record 'w pyenv =
  requests_post :: "request \<Rightarrow> 'w \<Rightarrow> (pyexception + response) \<times> 'w"
  json_dumps :: "pyval \<Rightarrow> pyexception + pystr"
  str_of_value :: "pyval \<Rightarrow> pystr"
  str_of_exception :: "pyexception \<Rightarrow> pystr"
  json_limits :: decoder_limits

text \<open>The network as the program changes it: the requests sent so far and the service.\<close>

record 'w net =
  sent :: "request list"
  world :: 'w

text \<open>What an f-string puts for \<^verbatim>\<open>{v}\<close>.\<close>

definition py_format :: "'w pyenv \<Rightarrow> pyval \<Rightarrow> pystr" where
  "py_format env v = (case v of PStr s \<Rightarrow> s | _ \<Rightarrow> str_of_value env v)"

text \<open>\<^verbatim>\<open>v[k]\<close> for a string \<open>k\<close>, and \<^verbatim>\<open>v[i]\<close> for an index \<open>i\<close> that is not negative.\<close>

definition getitem_key :: "pyval \<Rightarrow> pystr \<Rightarrow> pyexception + pyval" where
  "getitem_key v k =
     (case v of
        PDict d \<Rightarrow> (case map_of d k of Some x \<Rightarrow> Inr x | None \<Rightarrow> Inl (KeyError (PStr k)))
      | _ \<Rightarrow> Inl TypeError)"

definition getitem_index :: "pyval \<Rightarrow> nat \<Rightarrow> pyexception + pyval" where
  "getitem_index v i =
     (case v of
        PList xs \<Rightarrow> if i < length xs then Inr (xs ! i) else Inl IndexError
      | PStr s \<Rightarrow> if i < length s then Inr (PStr [s ! i]) else Inl IndexError
      | PDict d \<Rightarrow> Inl (KeyError (PInt (int i)))
      | _ \<Rightarrow> Inl TypeError)"

text \<open>Sequencing two steps of which the first may raise.\<close>

definition and_then :: "pyexception + 'a \<Rightarrow> ('a \<Rightarrow> pyexception + 'b) \<Rightarrow> pyexception + 'b" where
  "and_then r f = (case r of Inl e \<Rightarrow> Inl e | Inr x \<Rightarrow> f x)"

section \<open>The texts of the program\<close>

text \<open>Line 57, the text before the status code: "API call failed: HTTP ".\<close>

definition msg_api_failed :: pystr where
  "msg_api_failed =
    [0x41, 0x50, 0x49, 0x8C03, 0x7528, 0x5931, 0x8D25, 0x3A, 0x20, 0x48, 0x54, 0x54, 0x50,
     0x20]"

text \<open>Line 61, the text before the exception: "API call exception: ".\<close>

definition msg_api_exception :: pystr where
  "msg_api_exception =
    [0x41, 0x50, 0x49, 0x8C03, 0x7528, 0x5F02, 0x5E38, 0x3A, 0x20]"

text \<open>Lines 96, 126, 170, the key of the error record: "parse error".\<close>

definition parse_error_key :: pystr where
  "parse_error_key =
    [0x89E3, 0x6790, 0x9519, 0x8BEF]"

text \<open>Lines 96, 126, 170, the text before the response: "cannot parse the response as JSON. Original response: ".\<close>

definition parse_error_msg :: pystr where
  "parse_error_msg =
    [0x65E0, 0x6CD5, 0x5C06, 0x54CD, 0x5E94, 0x89E3, 0x6790, 0x4E3A, 0x4A, 0x53, 0x4F, 0x4E,
     0x683C, 0x5F0F, 0x3002, 0x539F, 0x59CB, 0x54CD, 0x5E94, 0x3A, 0x20]"

text \<open>Lines 67 to 82, the system prompt of the clause extraction agent.\<close>

definition clause_system_prompt :: pystr where
  "clause_system_prompt =
    [0x0A, 0x20, 0x20, 0x20, 0x20, 0x20, 0x20, 0x20, 0x20, 0x4F60, 0x662F, 0x4E00, 0x4E2A,
     0x4E13, 0x4E1A, 0x7684, 0x5408, 0x540C, 0x6761, 0x6B3E, 0x5206, 0x6790, 0x4E13, 0x5BB6,
     0x3002, 0x4F60, 0x7684, 0x4EFB, 0x52A1, 0x662F, 0x4ECE, 0x5408, 0x540C, 0x6587, 0x672C,
     0x4E2D, 0x63D0, 0x53D6, 0x5173, 0x952E, 0x6761, 0x6B3E, 0x4FE1, 0x606F, 0x3002, 0x0A,
     0x20, 0x20, 0x20, 0x20, 0x20, 0x20, 0x20, 0x20, 0x8BF7, 0x8BC6, 0x522B, 0x5E76, 0x63D0,
     0x53D6, 0x4EE5, 0x4E0B, 0x7C7B, 0x578B, 0x7684, 0x6761, 0x6B3E, 0xFF1A, 0x0A, 0x20, 0x20,
     0x20, 0x20, 0x20, 0x20, 0x20, 0x20, 0x31, 0x2E, 0x20, 0x5408, 0x540C, 0x53CC, 0x65B9,
     0x4FE1, 0x606F, 0x0A, 0x20, 0x20, 0x20, 0x20, 0x20, 0x20, 0x20, 0x20, 0x32, 0x2E, 0x20,
     0x5408, 0x540C, 0x6807, 0x7684, 0x0A, 0x20, 0x20, 0x20, 0x20, 0x20, 0x20, 0x20, 0x20,
     0x33, 0x2E, 0x20, 0x4EF7, 0x683C, 0x4E0E, 0x652F, 0x4ED8, 0x6761, 0x6B3E, 0x0A, 0x20,
     0x20, 0x20, 0x20, 0x20, 0x20, 0x20, 0x20, 0x34, 0x2E, 0x20, 0x4EA4, 0x4ED8, 0x6761,
     0x6B3E, 0x0A, 0x20, 0x20, 0x20, 0x20, 0x20, 0x20, 0x20, 0x20, 0x35, 0x2E, 0x20, 0x8FDD,
     0x7EA6, 0x8D23, 0x4EFB, 0x0A, 0x20, 0x20, 0x20, 0x20, 0x20, 0x20, 0x20, 0x20, 0x36, 0x2E,
     0x20, 0x4E89, 0x8BAE, 0x89E3, 0x51B3, 0x65B9, 0x5F0F, 0x0A, 0x20, 0x20, 0x20, 0x20, 0x20,
     0x20, 0x20, 0x20, 0x37, 0x2E, 0x20, 0x4FDD, 0x5BC6, 0x6761, 0x6B3E, 0x0A, 0x20, 0x20,
     0x20, 0x20, 0x20, 0x20, 0x20, 0x20, 0x38, 0x2E, 0x20, 0x5408, 0x540C, 0x6709, 0x6548,
     0x671F, 0x0A, 0x20, 0x20, 0x20, 0x20, 0x20, 0x20, 0x20, 0x20, 0x39, 0x2E, 0x20, 0x7EC8,
     0x6B62, 0x6761, 0x6B3E, 0x0A, 0x0A, 0x20, 0x20, 0x20, 0x20, 0x20, 0x20, 0x20, 0x20,
     0x8BF7, 0x4EE5, 0x4A, 0x53, 0x4F, 0x4E, 0x683C, 0x5F0F, 0x8FD4, 0x56DE, 0x7ED3, 0x679C,
     0xFF0C, 0x5305, 0x542B, 0x6761, 0x6B3E, 0x7C7B, 0x578B, 0x548C, 0x5BF9, 0x5E94, 0x7684,
     0x6761, 0x6B3E, 0x5185, 0x5BB9, 0x3002, 0x0A, 0x20, 0x20, 0x20, 0x20, 0x20, 0x20, 0x20,
     0x20, 0x5982, 0x679C, 0x67D0, 0x4E2A, 0x6761, 0x6B3E, 0x7C7B, 0x578B, 0x5728, 0x5408,
     0x540C, 0x4E2D, 0x672A, 0x627E, 0x5230, 0xFF0C, 0x8BF7, 0x5728, 0x4A, 0x53, 0x4F, 0x4E,
     0x4E2D, 0x5305, 0x542B, 0x8BE5, 0x6761, 0x6B3E, 0x7C7B, 0x578B, 0x5E76, 0x5C06, 0x5176,
     0x503C, 0x8BBE, 0x4E3A, 0x22, 0x672A, 0x627E, 0x5230, 0x22, 0x3002, 0x0A, 0x20, 0x20,
     0x20, 0x20, 0x20, 0x20, 0x20, 0x20]"

text \<open>Line 84, the text before the contract: "please analyse the following contract text and extract the key clauses:" and two line feeds.\<close>

definition clause_prompt_prefix :: pystr where
  "clause_prompt_prefix =
    [0x8BF7, 0x5206, 0x6790, 0x4EE5, 0x4E0B, 0x5408, 0x540C, 0x6587, 0x672C, 0x5E76, 0x63D0,
     0x53D6, 0x5173, 0x952E, 0x6761, 0x6B3E, 0x4FE1, 0x606F, 0xFF1A, 0x0A, 0x0A]"

text \<open>Lines 103 to 113, the system prompt of the risk analysis agent.\<close>

definition risk_system_prompt :: pystr where
  "risk_system_prompt =
    [0x0A, 0x20, 0x20, 0x20, 0x20, 0x20, 0x20, 0x20, 0x20, 0x4F60, 0x662F, 0x4E00, 0x4F4D,
     0x7ECF, 0x9A8C, 0x4E30, 0x5BCC, 0x7684, 0x5408, 0x540C, 0x98CE, 0x9669, 0x8BC4, 0x4F30,
     0x4E13, 0x5BB6, 0x3002, 0x57FA, 0x4E8E, 0x63D0, 0x53D6, 0x7684, 0x5408, 0x540C, 0x5173,
     0x952E, 0x6761, 0x6B3E, 0x4FE1, 0x606F, 0xFF0C, 0x0A, 0x20, 0x20, 0x20, 0x20, 0x20, 0x20,
     0x20, 0x20, 0x8BF7, 0x5BF9, 0x5408, 0x540C, 0x8FDB, 0x884C, 0x98CE, 0x9669, 0x91CF,
     0x5316, 0x5206, 0x6790, 0x3002, 0x8BC4, 0x4F30, 0x6BCF, 0x4E2A, 0x6761, 0x6B3E, 0x7684,
     0x98CE, 0x9669, 0x7B49, 0x7EA7, 0xFF08, 0x4F4E, 0x3001, 0x4E2D, 0x3001, 0x9AD8, 0xFF09,
     0xFF0C, 0x0A, 0x20, 0x20, 0x20, 0x20, 0x20, 0x20, 0x20, 0x20, 0x8BA1, 0x7B97, 0x603B,
     0x4F53, 0x98CE, 0x9669, 0x5F97, 0x5206, 0xFF08, 0x30, 0x2D, 0x31, 0x30, 0x30, 0x5206,
     0xFF09, 0xFF0C, 0x5E76, 0x63D0, 0x4F9B, 0x8BE6, 0x7EC6, 0x7684, 0x98CE, 0x9669, 0x5206,
     0x6790, 0x62A5, 0x544A, 0x3002, 0x0A, 0x0A, 0x20, 0x20, 0x20, 0x20, 0x20, 0x20, 0x20,
     0x20, 0x8BF7, 0x4EE5, 0x4A, 0x53, 0x4F, 0x4E, 0x683C, 0x5F0F, 0x8FD4, 0x56DE, 0x7ED3,
     0x679C, 0xFF0C, 0x5305, 0x542B, 0x4EE5, 0x4E0B, 0x5185, 0x5BB9, 0xFF1A, 0x0A, 0x20, 0x20,
     0x20, 0x20, 0x20, 0x20, 0x20, 0x20, 0x31, 0x2E, 0x20, 0x5404, 0x6761, 0x6B3E, 0x98CE,
     0x9669, 0x8BC4, 0x4F30, 0xFF08, 0x98CE, 0x9669, 0x7B49, 0x7EA7, 0x548C, 0x7406, 0x7531,
     0xFF09, 0x0A, 0x20, 0x20, 0x20, 0x20, 0x20, 0x20, 0x20, 0x20, 0x32, 0x2E, 0x20, 0x603B,
     0x4F53, 0x98CE, 0x9669, 0x5F97, 0x5206, 0x0A, 0x20, 0x20, 0x20, 0x20, 0x20, 0x20, 0x20,
     0x20, 0x33, 0x2E, 0x20, 0x4E3B, 0x8981, 0x98CE, 0x9669, 0x70B9, 0x6458, 0x8981, 0x0A,
     0x20, 0x20, 0x20, 0x20, 0x20, 0x20, 0x20, 0x20, 0x34, 0x2E, 0x20, 0x98CE, 0x9669, 0x7B49,
     0x7EA7, 0xFF08, 0x57FA, 0x4E8E, 0x603B, 0x4F53, 0x5F97, 0x5206, 0xFF1A, 0x30, 0x2D, 0x33,
     0x30, 0x4F4E, 0x98CE, 0x9669, 0xFF0C, 0x33, 0x31, 0x2D, 0x36, 0x30, 0x4E2D, 0x7B49,
     0x98CE, 0x9669, 0xFF0C, 0x36, 0x31, 0x2D, 0x31, 0x30, 0x30, 0x9AD8, 0x98CE, 0x9669,
     0xFF09, 0x0A, 0x20, 0x20, 0x20, 0x20, 0x20, 0x20, 0x20, 0x20]"

text \<open>Line 116, the text before the clause data.\<close>

definition risk_prompt_prefix :: pystr where
  "risk_prompt_prefix =
    [0x8BF7, 0x5BF9, 0x4EE5, 0x4E0B, 0x5408, 0x540C, 0x6761, 0x6B3E, 0x8FDB, 0x884C, 0x98CE,
     0x9669, 0x91CF, 0x5316, 0x5206, 0x6790, 0xFF1A, 0x0A, 0x0A]"

text \<open>Lines 134 to 144, the nine default compliance rules.\<close>

definition default_compliance_rules :: pystr where
  "default_compliance_rules =
    [0x0A, 0x20, 0x20, 0x20, 0x20, 0x20, 0x20, 0x20, 0x20, 0x20, 0x20, 0x20, 0x20, 0x31, 0x2E,
     0x20, 0x5408, 0x540C, 0x5FC5, 0x987B, 0x660E, 0x786E, 0x53CC, 0x65B9, 0x5F53, 0x4E8B,
     0x4EBA, 0x7684, 0x540D, 0x79F0, 0x3001, 0x5730, 0x5740, 0x548C, 0x8054, 0x7CFB, 0x65B9,
     0x5F0F, 0x3002, 0x0A, 0x20, 0x20, 0x20, 0x20, 0x20, 0x20, 0x20, 0x20, 0x20, 0x20, 0x20,
     0x20, 0x32, 0x2E, 0x20, 0x5408, 0x540C, 0x6807, 0x7684, 0x5FC5, 0x987B, 0x660E, 0x786E,
     0x3001, 0x5177, 0x4F53, 0xFF0C, 0x5177, 0x6709, 0x53EF, 0x64CD, 0x4F5C, 0x6027, 0x3002,
     0x0A, 0x20, 0x20, 0x20, 0x20, 0x20, 0x20, 0x20, 0x20, 0x20, 0x20, 0x20, 0x20, 0x33, 0x2E,
     0x20, 0x4EF7, 0x683C, 0x6761, 0x6B3E, 0x5FC5, 0x987B, 0x660E, 0x786E, 0x91D1, 0x989D,
     0x3001, 0x652F, 0x4ED8, 0x65B9, 0x5F0F, 0x548C, 0x652F, 0x4ED8, 0x65F6, 0x95F4, 0x3002,
     0x0A, 0x20, 0x20, 0x20, 0x20, 0x20, 0x20, 0x20, 0x20, 0x20, 0x20, 0x20, 0x20, 0x34, 0x2E,
     0x20, 0x4EA4, 0x4ED8, 0x6761, 0x6B3E, 0x5FC5, 0x987B, 0x660E, 0x786E, 0x4EA4, 0x4ED8,
     0x65F6, 0x95F4, 0x3001, 0x5730, 0x70B9, 0x548C, 0x65B9, 0x5F0F, 0x3002, 0x0A, 0x20, 0x20,
     0x20, 0x20, 0x20, 0x20, 0x20, 0x20, 0x20, 0x20, 0x20, 0x20, 0x35, 0x2E, 0x20, 0x8FDD,
     0x7EA6, 0x8D23, 0x4EFB, 0x6761, 0x6B3E, 0x5FC5, 0x987B, 0x660E, 0x786E, 0x53CC, 0x65B9,
     0x7684, 0x8D23, 0x4EFB, 0x548C, 0x8D54, 0x507F, 0x65B9, 0x5F0F, 0x3002, 0x0A, 0x20, 0x20,
     0x20, 0x20, 0x20, 0x20, 0x20, 0x20, 0x20, 0x20, 0x20, 0x20, 0x36, 0x2E, 0x20, 0x4E89,
     0x8BAE, 0x89E3, 0x51B3, 0x6761, 0x6B3E, 0x5FC5, 0x987B, 0x7B26, 0x5408, 0x6CD5, 0x5F8B,
     0x89C4, 0x5B9A, 0xFF0C, 0x660E, 0x786E, 0x89E3, 0x51B3, 0x65B9, 0x5F0F, 0x3002, 0x0A,
     0x20, 0x20, 0x20, 0x20, 0x20, 0x20, 0x20, 0x20, 0x20, 0x20, 0x20, 0x20, 0x37, 0x2E, 0x20,
     0x4FDD, 0x5BC6, 0x6761, 0x6B3E, 0x5FC5, 0x987B, 0x660E, 0x786E, 0x4FDD, 0x5BC6, 0x4FE1,
     0x606F, 0x8303, 0x56F4, 0x548C, 0x4FDD, 0x5BC6, 0x671F, 0x9650, 0x3002, 0x0A, 0x20, 0x20,
     0x20, 0x20, 0x20, 0x20, 0x20, 0x20, 0x20, 0x20, 0x20, 0x20, 0x38, 0x2E, 0x20, 0x5408,
     0x540C, 0x6709, 0x6548, 0x671F, 0x5FC5, 0x987B, 0x660E, 0x786E, 0x8D77, 0x59CB, 0x548C,
     0x7EC8, 0x6B62, 0x65E5, 0x671F, 0x3002, 0x0A, 0x20, 0x20, 0x20, 0x20, 0x20, 0x20, 0x20,
     0x20, 0x20, 0x20, 0x20, 0x20, 0x39, 0x2E, 0x20, 0x7EC8, 0x6B62, 0x6761, 0x6B3E, 0x5FC5,
     0x987B, 0x660E, 0x786E, 0x7EC8, 0x6B62, 0x6761, 0x4EF6, 0x548C, 0x7A0B, 0x5E8F, 0x3002,
     0x0A, 0x20, 0x20, 0x20, 0x20, 0x20, 0x20, 0x20, 0x20, 0x20, 0x20, 0x20, 0x20]"

text \<open>Lines 146 to 150, the system prompt of the compliance agent before the rules.\<close>

definition compliance_system_prefix :: pystr where
  "compliance_system_prefix =
    [0x0A, 0x20, 0x20, 0x20, 0x20, 0x20, 0x20, 0x20, 0x20, 0x4F60, 0x662F, 0x4E00, 0x4F4D,
     0x8D44, 0x6DF1, 0x7684, 0x5408, 0x540C, 0x5408, 0x89C4, 0x6027, 0x5BA1, 0x67E5, 0x4E13,
     0x5BB6, 0x3002, 0x8BF7, 0x6839, 0x636E, 0x4EE5, 0x4E0B, 0x5408, 0x89C4, 0x6027, 0x89C4,
     0x5219, 0xFF0C, 0x0A, 0x20, 0x20, 0x20, 0x20, 0x20, 0x20, 0x20, 0x20, 0x5BF9, 0x63D0,
     0x4F9B, 0x7684, 0x5408, 0x540C, 0x6761, 0x6B3E, 0x8FDB, 0x884C, 0x5408, 0x89C4, 0x6027,
     0x5206, 0x6790, 0xFF1A, 0x0A, 0x0A, 0x20, 0x20, 0x20, 0x20, 0x20, 0x20, 0x20, 0x20]"

text \<open>Lines 150 to 157, the system prompt of the compliance agent after the rules.\<close>

definition compliance_system_suffix :: pystr where
  "compliance_system_suffix =
    [0x0A, 0x0A, 0x20, 0x20, 0x20, 0x20, 0x20, 0x20, 0x20, 0x20, 0x8BF7, 0x4EE5, 0x4A, 0x53,
     0x4F, 0x4E, 0x683C, 0x5F0F, 0x8FD4, 0x56DE, 0x7ED3, 0x679C, 0xFF0C, 0x5305, 0x542B,
     0xFF1A, 0x0A, 0x20, 0x20, 0x20, 0x20, 0x20, 0x20, 0x20, 0x20, 0x31, 0x2E, 0x20, 0x5404,
     0x6761, 0x6B3E, 0x5408, 0x89C4, 0x6027, 0x8BC4, 0x4F30, 0xFF08, 0x5408, 0x89C4, 0x3001,
     0x4E0D, 0x5408, 0x89C4, 0x3001, 0x90E8, 0x5206, 0x5408, 0x89C4, 0xFF09, 0x0A, 0x20, 0x20,
     0x20, 0x20, 0x20, 0x20, 0x20, 0x20, 0x32, 0x2E, 0x20, 0x4E0D, 0x5408, 0x89C4, 0x6761,
     0x6B3E, 0x7684, 0x8BE6, 0x7EC6, 0x8BF4, 0x660E, 0x548C, 0x5EFA, 0x8BAE, 0x0A, 0x20, 0x20,
     0x20, 0x20, 0x20, 0x20, 0x20, 0x20, 0x33, 0x2E, 0x20, 0x603B, 0x4F53, 0x5408, 0x89C4,
     0x6027, 0x8BC4, 0x7EA7, 0xFF08, 0x5408, 0x89C4, 0x3001, 0x57FA, 0x672C, 0x5408, 0x89C4,
     0x3001, 0x4E0D, 0x5408, 0x89C4, 0xFF09, 0x0A, 0x20, 0x20, 0x20, 0x20, 0x20, 0x20, 0x20,
     0x20, 0x34, 0x2E, 0x20, 0x5408, 0x89C4, 0x6027, 0x5F97, 0x5206, 0xFF08, 0x30, 0x2D, 0x31,
     0x30, 0x30, 0x5206, 0xFF09, 0x0A, 0x20, 0x20, 0x20, 0x20, 0x20, 0x20, 0x20, 0x20]"

text \<open>Line 160, the text before the clause data.\<close>

definition compliance_prompt_prefix :: pystr where
  "compliance_prompt_prefix =
    [0x8BF7, 0x5BF9, 0x4EE5, 0x4E0B, 0x5408, 0x540C, 0x6761, 0x6B3E, 0x8FDB, 0x884C, 0x5408,
     0x89C4, 0x6027, 0x5206, 0x6790, 0xFF1A, 0x0A, 0x0A]"

text \<open>Lines 177 to 190, the system prompt of the report agent.\<close>

definition report_system_prompt :: pystr where
  "report_system_prompt =
    [0x0A, 0x20, 0x20, 0x20, 0x20, 0x20, 0x20, 0x20, 0x20, 0x4F60, 0x662F, 0x4E00, 0x4F4D,
     0x4E13, 0x4E1A, 0x7684, 0x5408, 0x540C, 0x5BA1, 0x67E5, 0x62A5, 0x544A, 0x64B0, 0x5199,
     0x4E13, 0x5BB6, 0x3002, 0x8BF7, 0x6839, 0x636E, 0x63D0, 0x4F9B, 0x7684, 0x5408, 0x540C,
     0x6761, 0x6B3E, 0x4FE1, 0x606F, 0x3001, 0x0A, 0x20, 0x20, 0x20, 0x20, 0x20, 0x20, 0x20,
     0x20, 0x98CE, 0x9669, 0x5206, 0x6790, 0x6570, 0x636E, 0x548C, 0x5408, 0x89C4, 0x6027,
     0x5206, 0x6790, 0x6570, 0x636E, 0xFF0C, 0x751F, 0x6210, 0x4E00, 0x4EFD, 0x5168, 0x9762,
     0x7684, 0x5408, 0x540C, 0x5BA1, 0x67E5, 0x62A5, 0x544A, 0x3002, 0x0A, 0x0A, 0x20, 0x20,
     0x20, 0x20, 0x20, 0x20, 0x20, 0x20, 0x62A5, 0x544A, 0x5E94, 0x5305, 0x62EC, 0x4EE5,
     0x4E0B, 0x90E8, 0x5206, 0xFF1A, 0x0A, 0x20, 0x20, 0x20, 0x20, 0x20, 0x20, 0x20, 0x20,
     0x31, 0x2E, 0x20, 0x62A5, 0x544A, 0x6982, 0x8FF0, 0xFF08, 0x5305, 0x62EC, 0x5408, 0x540C,
     0x57FA, 0x672C, 0x4FE1, 0x606F, 0x548C, 0x5BA1, 0x67E5, 0x65E5, 0x671F, 0xFF09, 0x0A,
     0x20, 0x20, 0x20, 0x20, 0x20, 0x20, 0x20, 0x20, 0x32, 0x2E, 0x20, 0x5173, 0x952E, 0x6761,
     0x6B3E, 0x6458, 0x8981, 0x0A, 0x20, 0x20, 0x20, 0x20, 0x20, 0x20, 0x20, 0x20, 0x33, 0x2E,
     0x20, 0x98CE, 0x9669, 0x8BC4, 0x4F30, 0x7ED3, 0x679C, 0x0A, 0x20, 0x20, 0x20, 0x20, 0x20,
     0x20, 0x20, 0x20, 0x34, 0x2E, 0x20, 0x5408, 0x89C4, 0x6027, 0x5206, 0x6790, 0x7ED3,
     0x679C, 0x0A, 0x20, 0x20, 0x20, 0x20, 0x20, 0x20, 0x20, 0x20, 0x35, 0x2E, 0x20, 0x7EFC,
     0x5408, 0x8BC4, 0x4F30, 0x4E0E, 0x5EFA, 0x8BAE, 0x0A, 0x20, 0x20, 0x20, 0x20, 0x20, 0x20,
     0x20, 0x20, 0x36, 0x2E, 0x20, 0x6574, 0x6539, 0x5EFA, 0x8BAE, 0x6E05, 0x5355, 0x0A, 0x0A,
     0x20, 0x20, 0x20, 0x20, 0x20, 0x20, 0x20, 0x20, 0x8BF7, 0x4EE5, 0x6E05, 0x6670, 0x3001,
     0x4E13, 0x4E1A, 0x7684, 0x8BED, 0x8A00, 0x64B0, 0x5199, 0x62A5, 0x544A, 0xFF0C, 0x786E,
     0x4FDD, 0x5185, 0x5BB9, 0x51C6, 0x786E, 0x3001, 0x6709, 0x903B, 0x8F91, 0x6027, 0x4E14,
     0x6613, 0x4E8E, 0x7406, 0x89E3, 0x3002, 0x0A, 0x20, 0x20, 0x20, 0x20, 0x20, 0x20, 0x20,
     0x20]"

text \<open>Line 193, the key "clause information".\<close>

definition key_clause_info :: pystr where
  "key_clause_info =
    [0x6761, 0x6B3E, 0x4FE1, 0x606F]"

text \<open>Lines 194 and 266, the key "risk analysis".\<close>

definition key_risk :: pystr where
  "key_risk =
    [0x98CE, 0x9669, 0x5206, 0x6790]"

text \<open>Lines 195 and 272, the key "compliance analysis".\<close>

definition key_compliance :: pystr where
  "key_compliance =
    [0x5408, 0x89C4, 0x6027, 0x5206, 0x6790]"

text \<open>Line 199, the text before the combined data.\<close>

definition report_prompt_prefix :: pystr where
  "report_prompt_prefix =
    [0x8BF7, 0x6839, 0x636E, 0x4EE5, 0x4E0B, 0x6570, 0x636E, 0x751F, 0x6210, 0x5408, 0x540C,
     0x5BA1, 0x67E5, 0x62A5, 0x544A, 0xFF1A, 0x0A, 0x0A]"

text \<open>Lines 207 to 219, the system prompt of the accuracy check agent.\<close>

definition accuracy_system_prompt :: pystr where
  "accuracy_system_prompt =
    [0x0A, 0x20, 0x20, 0x20, 0x20, 0x20, 0x20, 0x20, 0x20, 0x4F60, 0x662F, 0x4E00, 0x4F4D,
     0x4E25, 0x8C28, 0x7684, 0x5408, 0x540C, 0x5BA1, 0x67E5, 0x8D28, 0x91CF, 0x4FDD, 0x8BC1,
     0x4E13, 0x5BB6, 0x3002, 0x8BF7, 0x68C0, 0x67E5, 0x751F, 0x6210, 0x7684, 0x5408, 0x540C,
     0x5BA1, 0x67E5, 0x62A5, 0x544A, 0x0A, 0x20, 0x20, 0x20, 0x20, 0x20, 0x20, 0x20, 0x20,
     0x662F, 0x5426, 0x51C6, 0x786E, 0x53CD, 0x6620, 0x4E86, 0x539F, 0x59CB, 0x5408, 0x540C,
     0x7684, 0x5185, 0x5BB9, 0x3002, 0x91CD, 0x70B9, 0x68C0, 0x67E5, 0x4EE5, 0x4E0B, 0x65B9,
     0x9762, 0xFF1A, 0x0A, 0x0A, 0x20, 0x20, 0x20, 0x20, 0x20, 0x20, 0x20, 0x20, 0x31, 0x2E,
     0x20, 0x5173, 0x952E, 0x6761, 0x6B3E, 0x63D0, 0x53D6, 0x7684, 0x51C6, 0x786E, 0x6027,
     0x0A, 0x20, 0x20, 0x20, 0x20, 0x20, 0x20, 0x20, 0x20, 0x32, 0x2E, 0x20, 0x98CE, 0x9669,
     0x8BC4, 0x4F30, 0x7684, 0x5408, 0x7406, 0x6027, 0x0A, 0x20, 0x20, 0x20, 0x20, 0x20, 0x20,
     0x20, 0x20, 0x33, 0x2E, 0x20, 0x5408, 0x89C4, 0x6027, 0x5206, 0x6790, 0x7684, 0x51C6,
     0x786E, 0x6027, 0x0A, 0x20, 0x20, 0x20, 0x20, 0x20, 0x20, 0x20, 0x20, 0x34, 0x2E, 0x20,
     0x62A5, 0x544A, 0x4E2D, 0x662F, 0x5426, 0x5B58, 0x5728, 0x4E8B, 0x5B9E, 0x6027, 0x9519,
     0x8BEF, 0x0A, 0x20, 0x20, 0x20, 0x20, 0x20, 0x20, 0x20, 0x20, 0x35, 0x2E, 0x20, 0x5EFA,
     0x8BAE, 0x7684, 0x76F8, 0x5173, 0x6027, 0x548C, 0x53EF, 0x884C, 0x6027, 0x0A, 0x0A, 0x20,
     0x20, 0x20, 0x20, 0x20, 0x20, 0x20, 0x20, 0x8BF7, 0x63D0, 0x4F9B, 0x4E00, 0x4EFD, 0x51C6,
     0x786E, 0x6027, 0x68C0, 0x67E5, 0x62A5, 0x544A, 0xFF0C, 0x6307, 0x51FA, 0x4EFB, 0x4F55,
     0x4E0D, 0x51C6, 0x786E, 0x6216, 0x9700, 0x8981, 0x6539, 0x8FDB, 0x7684, 0x5730, 0x65B9,
     0xFF0C, 0x0A, 0x20, 0x20, 0x20, 0x20, 0x20, 0x20, 0x20, 0x20, 0x5E76, 0x7ED9, 0x51FA,
     0x6539, 0x8FDB, 0x5EFA, 0x8BAE, 0x3002, 0x0A, 0x20, 0x20, 0x20, 0x20, 0x20, 0x20, 0x20,
     0x20]"

text \<open>Lines 221 to 223, the prompt before the original contract.\<close>

definition accuracy_prompt_head :: pystr where
  "accuracy_prompt_head =
    [0x0A, 0x20, 0x20, 0x20, 0x20, 0x20, 0x20, 0x20, 0x20, 0x539F, 0x59CB, 0x5408, 0x540C,
     0x6587, 0x672C, 0xFF1A, 0x0A, 0x20, 0x20, 0x20, 0x20, 0x20, 0x20, 0x20, 0x20]"

text \<open>Lines 223 to 226, the prompt between the contract and the report.\<close>

definition accuracy_prompt_middle :: pystr where
  "accuracy_prompt_middle =
    [0x0A, 0x0A, 0x20, 0x20, 0x20, 0x20, 0x20, 0x20, 0x20, 0x20, 0x751F, 0x6210, 0x7684,
     0x5BA1, 0x67E5, 0x62A5, 0x544A, 0xFF1A, 0x0A, 0x20, 0x20, 0x20, 0x20, 0x20, 0x20, 0x20,
     0x20]"

text \<open>Lines 226 to 229, the prompt after the report.\<close>

definition accuracy_prompt_tail :: pystr where
  "accuracy_prompt_tail =
    [0x0A, 0x0A, 0x20, 0x20, 0x20, 0x20, 0x20, 0x20, 0x20, 0x20, 0x8BF7, 0x5BF9, 0x4E0A,
     0x8FF0, 0x5BA1, 0x67E5, 0x62A5, 0x544A, 0x8FDB, 0x884C, 0x51C6, 0x786E, 0x6027, 0x68C0,
     0x67E5, 0x3002, 0x0A, 0x20, 0x20, 0x20, 0x20, 0x20, 0x20, 0x20, 0x20]"

text \<open>Line 260, the result key "clause extraction".\<close>

definition key_clauses :: pystr where
  "key_clauses =
    [0x6761, 0x6B3E, 0x63D0, 0x53D6]"

text \<open>Line 278, the result key "review report".\<close>

definition key_report :: pystr where
  "key_report =
    [0x5BA1, 0x67E5, 0x62A5, 0x544A]"

text \<open>Line 284, the result key "accuracy check".\<close>

definition key_accuracy :: pystr where
  "key_accuracy =
    [0x51C6, 0x786E, 0x6027, 0x68C0, 0x67E5]"

text \<open>The eleven progress messages of lines 249 to 285, in order.\<close>

definition msg_init :: pystr where
  "msg_init =
    [0x521D, 0x59CB, 0x5316, 0x667A, 0x80FD, 0x4F53, 0x2E, 0x2E, 0x2E]"

definition msg_extracting :: pystr where
  "msg_extracting =
    [0x6B63, 0x5728, 0x63D0, 0x53D6, 0x5408, 0x540C, 0x5173, 0x952E, 0x6761, 0x6B3E, 0x2E,
     0x2E, 0x2E]"

definition msg_extracted :: pystr where
  "msg_extracted =
    [0x5408, 0x540C, 0x5173, 0x952E, 0x6761, 0x6B3E, 0x63D0, 0x53D6, 0x5B8C, 0x6210]"

definition msg_risk_running :: pystr where
  "msg_risk_running =
    [0x6B63, 0x5728, 0x8FDB, 0x884C, 0x98CE, 0x9669, 0x91CF, 0x5316, 0x5206, 0x6790, 0x2E,
     0x2E, 0x2E]"

definition msg_risk_done :: pystr where
  "msg_risk_done =
    [0x98CE, 0x9669, 0x91CF, 0x5316, 0x5206, 0x6790, 0x5B8C, 0x6210]"

definition msg_compliance_running :: pystr where
  "msg_compliance_running =
    [0x6B63, 0x5728, 0x8FDB, 0x884C, 0x5408, 0x89C4, 0x6027, 0x5206, 0x6790, 0x2E, 0x2E, 0x2E]"

definition msg_compliance_done :: pystr where
  "msg_compliance_done =
    [0x5408, 0x89C4, 0x6027, 0x5206, 0x6790, 0x5B8C, 0x6210]"

definition msg_report_running :: pystr where
  "msg_report_running =
    [0x6B63, 0x5728, 0x751F, 0x6210, 0x5BA1, 0x67E5, 0x62A5, 0x544A, 0x2E, 0x2E, 0x2E]"

definition msg_report_done :: pystr where
  "msg_report_done =
    [0x5BA1, 0x67E5, 0x62A5, 0x544A, 0x751F, 0x6210, 0x5B8C, 0x6210]"

definition msg_accuracy_running :: pystr where
  "msg_accuracy_running =
    [0x6B63, 0x5728, 0x68C0, 0x67E5, 0x62A5, 0x544A, 0x51C6, 0x786E, 0x6027, 0x2E, 0x2E, 0x2E]"

definition msg_accuracy_done :: pystr where
  "msg_accuracy_done =
    [0x62A5, 0x544A, 0x51C6, 0x786E, 0x6027, 0x68C0, 0x67E5, 0x5B8C, 0x6210]"

text \<open>Line 290, the text before the exception: "an error occurred during processing: ".\<close>

definition msg_run_error :: pystr where
  "msg_run_error =
    [0x5904, 0x7406, 0x8FC7, 0x7A0B, 0x4E2D, 0x53D1, 0x751F, 0x9519, 0x8BEF, 0x3A, 0x20]"

definition fence_json :: pystr where
  "fence_json = ascii ''```json''"

definition fence :: pystr where
  "fence = ascii ''```''"

section \<open>Agent.call_api\<close>

record APIConfig =
  api_base_url :: pystr
  api_key :: pystr
  model_name :: pystr
  temperature :: pystr
  max_tokens :: int

text \<open>The headers an agent builds when it is created (lines 31 to 34).\<close>

definition agent_headers :: "APIConfig \<Rightarrow> (pystr \<times> pystr) list" where
  "agent_headers cfg =
     [(ascii ''Content-Type'', ascii ''application/json''),
      (ascii ''Authorization'', ascii ''Bearer '' @ api_key cfg)]"

text \<open>The dict \<open>data\<close> of lines 38 to 46. The temperature is a float, kept as its text.\<close>

definition request_data :: "APIConfig \<Rightarrow> pystr \<Rightarrow> pystr \<Rightarrow> pyval" where
  "request_data cfg prompt system_prompt =
     PDict
       [(ascii ''model'', PStr (model_name cfg)),
        (ascii ''messages'',
           PList
             [PDict [(ascii ''role'', PStr (ascii ''system'')),
                     (ascii ''content'', PStr system_prompt)],
              PDict [(ascii ''role'', PStr (ascii ''user'')),
                     (ascii ''content'', PStr prompt)]]),
        (ascii ''temperature'', PFloat (temperature cfg)),
        (ascii ''max_tokens'', PInt (max_tokens cfg))]"

definition api_request :: "APIConfig \<Rightarrow> pystr \<Rightarrow> pystr \<Rightarrow> request" where
  "api_request cfg prompt system_prompt =
     \<lparr>req_url = api_base_url cfg @ ascii ''/chat/completions'',
      req_headers = agent_headers cfg,
      req_data = request_data cfg prompt system_prompt\<rparr>"

text \<open>Line 55: \<^verbatim>\<open>response.json()["choices"][0]["message"]["content"]\<close>.\<close>

definition message_content :: "response \<Rightarrow> pyexception + pyval" where
  "message_content r =
     and_then (resp_json r) (\<lambda>body.
     and_then (getitem_key body (ascii ''choices'')) (\<lambda>choices.
     and_then (getitem_index choices 0) (\<lambda>choice.
     and_then (getitem_key choice (ascii ''message'')) (\<lambda>message.
     getitem_key message (ascii ''content'')))))"

text \<open>
  Lines 36 to 61. The request is sent once. Every exception raised inside the
  \<^verbatim>\<open>try\<close> block is caught and turned into a string that is returned.
\<close>

definition call_api ::
  "'w pyenv \<Rightarrow> APIConfig \<Rightarrow> pystr \<Rightarrow> pystr \<Rightarrow> 'w net \<Rightarrow> pyval \<times> 'w net" where
  "call_api env cfg prompt system_prompt s =
     (let req = api_request cfg prompt system_prompt;
          (outcome, w') = requests_post env req (world s);
          s' = \<lparr>sent = sent s @ [req], world = w'\<rparr>
      in case outcome of
           Inl e \<Rightarrow> (PStr (msg_api_exception @ str_of_exception env e), s')
         | Inr response \<Rightarrow>
             if status_code response = 200 then
               (case message_content response of
                  Inl e \<Rightarrow> (PStr (msg_api_exception @ str_of_exception env e), s')
                | Inr content \<Rightarrow> (content, s'))
             else
               (PStr (msg_api_failed @ int_str (status_code response) @ ascii '', '' @
                      resp_text response), s'))"

section \<open>The five agents\<close>

text \<open>
  Lines 88 to 97, 120 to 127 and 164 to 171, the same statements in the three
  structured agents: trim the reply, delete the fence markers, decode. The bare
  \<^verbatim>\<open>except\<close> catches every error of the decoder, and also the \<^verbatim>\<open>AttributeError\<close> of
  \<^verbatim>\<open>strip\<close> on a reply that is not a string; \<open>response\<close> has been reassigned by then
  only in the first case.
\<close>

definition delete_fences :: "pystr \<Rightarrow> pystr" where
  "delete_fences s = str_replace (str_replace s fence_json []) fence []"

definition strip_fences :: "pystr \<Rightarrow> pystr" where
  "strip_fences response = delete_fences (str_strip response)"

definition parse_error_record :: "pystr \<Rightarrow> pyval" where
  "parse_error_record shown = PDict [(parse_error_key, PStr (parse_error_msg @ shown))]"

definition parse_reply :: "'w pyenv \<Rightarrow> pyval \<Rightarrow> pyval" where
  "parse_reply env response =
     (case response of
        PStr r \<Rightarrow>
          (case json_loads (json_limits env) (strip_fences r) of
             Some v \<Rightarrow> v
           | None \<Rightarrow> parse_error_record (strip_fences r))
      | _ \<Rightarrow> parse_error_record (str_of_value env response))"

definition ClauseExtractionAgent_analyze ::
  "'w pyenv \<Rightarrow> APIConfig \<Rightarrow> pystr \<Rightarrow> 'w net \<Rightarrow> pyval \<times> 'w net" where
  "ClauseExtractionAgent_analyze env cfg contract_text s =
     (let prompt = clause_prompt_prefix @ contract_text;
          (response, s') = call_api env cfg prompt clause_system_prompt s
      in (parse_reply env response, s'))"

definition RiskAnalysisAgent_analyze ::
  "'w pyenv \<Rightarrow> APIConfig \<Rightarrow> pyval \<Rightarrow> 'w net \<Rightarrow> (pyexception + pyval) \<times> 'w net" where
  "RiskAnalysisAgent_analyze env cfg clause_data s =
     (case json_dumps env clause_data of
        Inl e \<Rightarrow> (Inl e, s)
      | Inr clause_json \<Rightarrow>
          (let prompt = risk_prompt_prefix @ clause_json;
               (response, s') = call_api env cfg prompt risk_system_prompt s
           in (Inr (parse_reply env response), s')))"

definition ComplianceAnalysisAgent_analyze ::
  "'w pyenv \<Rightarrow> APIConfig \<Rightarrow> pyval \<Rightarrow> pystr option \<Rightarrow> 'w net \<Rightarrow>
   (pyexception + pyval) \<times> 'w net" where
  "ComplianceAnalysisAgent_analyze env cfg clause_data compliance_rules s =
     (let rules = (case compliance_rules of None \<Rightarrow> default_compliance_rules | Some r \<Rightarrow> r);
          system_prompt = compliance_system_prefix @ rules @ compliance_system_suffix
      in case json_dumps env clause_data of
           Inl e \<Rightarrow> (Inl e, s)
         | Inr clause_json \<Rightarrow>
             (let prompt = compliance_prompt_prefix @ clause_json;
                  (response, s') = call_api env cfg prompt system_prompt s
              in (Inr (parse_reply env response), s')))"

definition ReportGenerationAgent_generate ::
  "'w pyenv \<Rightarrow> APIConfig \<Rightarrow> pyval \<Rightarrow> pyval \<Rightarrow> pyval \<Rightarrow> 'w net \<Rightarrow>
   (pyexception + pyval) \<times> 'w net" where
  "ReportGenerationAgent_generate env cfg clause_data risk_data compliance_data s =
     (let combined_data =
            PDict [(key_clause_info, clause_data), (key_risk, risk_data),
                   (key_compliance, compliance_data)]
      in case json_dumps env combined_data of
           Inl e \<Rightarrow> (Inl e, s)
         | Inr combined_json \<Rightarrow>
             (let prompt = report_prompt_prefix @ combined_json;
                  (response, s') = call_api env cfg prompt report_system_prompt s
              in (Inr response, s')))"

definition AccuracyCheckAgent_check ::
  "'w pyenv \<Rightarrow> APIConfig \<Rightarrow> pystr \<Rightarrow> pyval \<Rightarrow> 'w net \<Rightarrow> pyval \<times> 'w net" where
  "AccuracyCheckAgent_check env cfg original_contract generated_report s =
     (let prompt = accuracy_prompt_head @ original_contract @ accuracy_prompt_middle @
                   py_format env generated_report @ accuracy_prompt_tail
      in call_api env cfg prompt accuracy_system_prompt s)"

section \<open>ContractProcessingThread.run\<close>

text \<open>The three signals of the worker thread, and what it emits in a run.\<close>

datatype signal =
    progress_updated int pystr
  | processing_complete "(pystr \<times> pyval) list"
  | processing_error pystr

text \<open>
  Lines 246 to 290. The signals emitted so far stay emitted when a stage raises; the
  handler of line 289 then emits \<open>processing_error\<close> and nothing else follows. Of the
  statements in the \<^verbatim>\<open>try\<close> block only the three calls of \<^verbatim>\<open>json.dumps\<close> can raise:
  \<open>call_api\<close> and the reply parsing catch their own exceptions.
\<close>

definition run :: "'w pyenv \<Rightarrow> APIConfig \<Rightarrow> pystr \<Rightarrow> 'w net \<Rightarrow> signal list \<times> 'w net" where
  "run env cfg contract_text s0 =
     (let sig1 = [progress_updated 10 msg_init, progress_updated 20 msg_extracting];
          (clause_data, s1) = ClauseExtractionAgent_analyze env cfg contract_text s0;
          results1 = dict_set [] key_clauses clause_data;
          sig2 = sig1 @ [progress_updated 35 msg_extracted, progress_updated 40 msg_risk_running]
      in case RiskAnalysisAgent_analyze env cfg clause_data s1 of
           (Inl e, s2) \<Rightarrow> (sig2 @ [processing_error (msg_run_error @ str_of_exception env e)], s2)
         | (Inr risk_data, s2) \<Rightarrow>
     (let results2 = dict_set results1 key_risk risk_data;
          sig3 = sig2 @ [progress_updated 55 msg_risk_done,
                         progress_updated 60 msg_compliance_running]
      in case ComplianceAnalysisAgent_analyze env cfg clause_data None s2 of
           (Inl e, s3) \<Rightarrow> (sig3 @ [processing_error (msg_run_error @ str_of_exception env e)], s3)
         | (Inr compliance_data, s3) \<Rightarrow>
     (let results3 = dict_set results2 key_compliance compliance_data;
          sig4 = sig3 @ [progress_updated 75 msg_compliance_done,
                         progress_updated 80 msg_report_running]
      in case ReportGenerationAgent_generate env cfg clause_data risk_data compliance_data s3 of
           (Inl e, s4) \<Rightarrow> (sig4 @ [processing_error (msg_run_error @ str_of_exception env e)], s4)
         | (Inr report, s4) \<Rightarrow>
     (let results4 = dict_set results3 key_report report;
          sig5 = sig4 @ [progress_updated 90 msg_report_done,
                         progress_updated 91 msg_accuracy_running];
          (accuracy_check, s5) = AccuracyCheckAgent_check env cfg contract_text report s4;
          results5 = dict_set results4 key_accuracy accuracy_check
      in (sig5 @ [progress_updated 100 msg_accuracy_done, processing_complete results5],
          s5)))))"

text \<open>What a list of signals holds: the percent values, and the kinds of signal.\<close>

fun percents :: "signal list \<Rightarrow> int list" where
  "percents [] = []"
| "percents (progress_updated p m # sigs) = p # percents sigs"
| "percents (_ # sigs) = percents sigs"

fun completions :: "signal list \<Rightarrow> (pystr \<times> pyval) list list" where
  "completions [] = []"
| "completions (processing_complete r # sigs) = r # completions sigs"
| "completions (_ # sigs) = completions sigs"

fun failures :: "signal list \<Rightarrow> pystr list" where
  "failures [] = []"
| "failures (processing_error m # sigs) = m # failures sigs"
| "failures (_ # sigs) = failures sigs"

section \<open>The window: starting a run and receiving its signals\<close>

text \<open>
  Of the main window only what a run touches is kept: the loaded contract text, the
  configuration, the button, the progress bar, the status line, the message boxes shown,
  whether the settings dialog was opened, the worker thread created last, the results
  received and whether the save action is enabled. The tab widgets are not modelled.
\<close>

datatype message_box =
    Warning pystr pystr
  | Information pystr pystr
  | Critical pystr pystr

record app =
  app_contract_text :: pystr
  app_api_config :: APIConfig
  process_button_enabled :: bool
  progress_bar_value :: int
  status_message :: pystr
  message_boxes :: "message_box list"
  api_settings_shown :: bool
  processing_thread :: "(APIConfig \<times> pystr) option"
  app_results :: "(pystr \<times> pyval) list option"
  save_action_enabled :: bool

text \<open>Line 622, the warning for an empty contract: title "contract is empty", text "please load a contract file first".\<close>

definition title_contract_empty :: pystr where
  "title_contract_empty =
    [0x5408, 0x540C, 0x4E3A, 0x7A7A]"

definition text_contract_empty :: pystr where
  "text_contract_empty =
    [0x8BF7, 0x5148, 0x52A0, 0x8F7D, 0x5408, 0x540C, 0x6587, 0x4EF6]"

text \<open>Line 626, the warning for an empty API key: title "API key not set", text "please set the API key first".\<close>

definition title_key_missing :: pystr where
  "title_key_missing =
    [0x41, 0x50, 0x49, 0x5BC6, 0x94A5, 0x672A, 0x8BBE, 0x7F6E]"

definition text_key_missing :: pystr where
  "text_key_missing =
    [0x8BF7, 0x5148, 0x8BBE, 0x7F6E, 0x41, 0x50, 0x49, 0x5BC6, 0x94A5]"

text \<open>Lines 663 and 666, after a completed run: the status "contract review finished" and the information box.\<close>

definition status_finished :: pystr where
  "status_finished =
    [0x5408, 0x540C, 0x5BA1, 0x6838, 0x5B8C, 0x6210]"

definition title_finished :: pystr where
  "title_finished =
    [0x5904, 0x7406, 0x5B8C, 0x6210]"

definition text_finished :: pystr where
  "text_finished =
    [0x5408, 0x540C, 0x5BA1, 0x6838, 0x5DF2, 0x5B8C, 0x6210, 0xFF0C, 0x8BF7, 0x67E5, 0x770B,
     0x5404, 0x6807, 0x7B7E, 0x9875, 0x7ED3, 0x679C]"

text \<open>Lines 669 and 674, after a failed run: the title "processing error" and the status.\<close>

definition title_error :: pystr where
  "title_error =
    [0x5904, 0x7406, 0x9519, 0x8BEF]"

definition status_error :: pystr where
  "status_error =
    [0x5904, 0x7406, 0x8FC7, 0x7A0B, 0x4E2D, 0x53D1, 0x751F, 0x9519, 0x8BEF]"

text \<open>
  Lines 620 to 641. The result is the window after the click and the worker thread that
  was started by it, if any: the configuration and the contract text it was given.
\<close>

definition process_contract :: "app \<Rightarrow> app \<times> (APIConfig \<times> pystr) option" where
  "process_contract a =
     (if app_contract_text a = [] then
        (a\<lparr>message_boxes := message_boxes a @ [Warning title_contract_empty text_contract_empty]\<rparr>,
         None)
      else if api_key (app_api_config a) = [] then
        (a\<lparr>message_boxes := message_boxes a @ [Warning title_key_missing text_key_missing],
           api_settings_shown := True\<rparr>,
         None)
      else
        (a\<lparr>process_button_enabled := False, progress_bar_value := 0,
           processing_thread := Some (app_api_config a, app_contract_text a)\<rparr>,
         Some (app_api_config a, app_contract_text a)))"

text \<open>Lines 643 to 674, the three slots the signals are connected to.\<close>

definition update_progress :: "int \<Rightarrow> pystr \<Rightarrow> app \<Rightarrow> app" where
  "update_progress v message a = a\<lparr>progress_bar_value := v, status_message := message\<rparr>"

definition processing_finished :: "(pystr \<times> pyval) list \<Rightarrow> app \<Rightarrow> app" where
  "processing_finished results a =
     a\<lparr>app_results := Some results, save_action_enabled := True,
       process_button_enabled := True, status_message := status_finished,
       message_boxes := message_boxes a @ [Information title_finished text_finished]\<rparr>"

definition processing_error_slot :: "pystr \<Rightarrow> app \<Rightarrow> app" where
  "processing_error_slot error_msg a =
     a\<lparr>message_boxes := message_boxes a @ [Critical title_error error_msg],
       process_button_enabled := True, status_message := status_error\<rparr>"

fun deliver :: "signal \<Rightarrow> app \<Rightarrow> app" where
  "deliver (progress_updated v message) a = update_progress v message a"
| "deliver (processing_complete results) a = processing_finished results a"
| "deliver (processing_error error_msg) a = processing_error_slot error_msg a"

text \<open>
  A click on the button, followed to its end. The worker runs on its own thread and its
  signals arrive in the order of emission; here the run is taken as a whole: the window
  after the last signal, the signals, and the network.
\<close>

definition click_process :: "'w pyenv \<Rightarrow> app \<Rightarrow> 'w net \<Rightarrow> app \<times> signal list \<times> 'w net" where
  "click_process env a s =
     (case process_contract a of
        (a', None) \<Rightarrow> (a', [], s)
      | (a', Some (cfg, contract_text)) \<Rightarrow>
          (let (sigs, s') = run env cfg contract_text s
           in (fold deliver sigs a', sigs, s')))"

section \<open>The combined report\<close>

text \<open>Line 765, the title "# combined contract review report" and two line feeds.\<close>

definition report_title :: pystr where
  "report_title =
    [0x23, 0x20, 0x5408, 0x540C, 0x5BA1, 0x67E5, 0x7EFC, 0x5408, 0x62A5, 0x544A, 0x0A, 0x0A]"

text \<open>Line 768, the text before the date: "**review date:** ".\<close>

definition date_prefix :: pystr where
  "date_prefix =
    [0x2A, 0x2A, 0x5BA1, 0x67E5, 0x65E5, 0x671F, 0x3A, 0x2A, 0x2A, 0x20]"

text \<open>Line 771, "## 1. key clause extraction results".\<close>

definition heading_clauses :: pystr where
  "heading_clauses =
    [0x23, 0x23, 0x20, 0x4E00, 0x3001, 0x5173, 0x952E, 0x6761, 0x6B3E, 0x63D0, 0x53D6, 0x7ED3,
     0x679C, 0x0A, 0x0A]"

text \<open>Line 784, "## 2. risk quantification results".\<close>

definition heading_risk :: pystr where
  "heading_risk =
    [0x23, 0x23, 0x20, 0x4E8C, 0x3001, 0x98CE, 0x9669, 0x91CF, 0x5316, 0x5206, 0x6790, 0x7ED3,
     0x679C, 0x0A, 0x0A]"

text \<open>Line 797, "## 3. compliance analysis results".\<close>

definition heading_compliance :: pystr where
  "heading_compliance =
    [0x23, 0x23, 0x20, 0x4E09, 0x3001, 0x5408, 0x89C4, 0x6027, 0x5206, 0x6790, 0x7ED3, 0x679C,
     0x0A, 0x0A]"

text \<open>Line 810, "## 4. detailed review report".\<close>

definition heading_report :: pystr where
  "heading_report =
    [0x23, 0x23, 0x20, 0x56DB, 0x3001, 0x8BE6, 0x7EC6, 0x5BA1, 0x67E5, 0x62A5, 0x544A, 0x0A,
     0x0A]"

text \<open>Line 814, two line feeds and "## 5. accuracy check results".\<close>

definition heading_accuracy :: pystr where
  "heading_accuracy =
    [0x0A, 0x0A, 0x23, 0x23, 0x20, 0x4E94, 0x3001, 0x51C6, 0x786E, 0x6027, 0x68C0, 0x67E5,
     0x7ED3, 0x679C, 0x0A, 0x0A]"

text \<open>
  Lines 774 to 779 (and again 787 to 792, 800 to 805): the loop over the items of a
  structured result. A value that is a dict or a list is printed by \<^verbatim>\<open>json.dumps\<close> inside
  a fenced block, any other value by the f-string. Code 10 is the line feed.
\<close>

definition is_container :: "pyval \<Rightarrow> bool" where
  "is_container v = (case v of PDict _ \<Rightarrow> True | PList _ \<Rightarrow> True | _ \<Rightarrow> False)"

definition render_item :: "'w pyenv \<Rightarrow> pystr \<times> pyval \<Rightarrow> pyexception + pystr" where
  "render_item env item =
     (case item of (k, v) \<Rightarrow>
        if is_container v then
          and_then (json_dumps env v) (\<lambda>j.
            Inr (ascii ''### '' @ k @ [10] @ ascii ''```json'' @ [10] @ j @ [10] @ ascii ''```'' @
                 [10, 10]))
        else Inr (ascii ''### '' @ k @ [10] @ py_format env v @ [10, 10]))"

fun render_items :: "'w pyenv \<Rightarrow> (pystr \<times> pyval) list \<Rightarrow> pyexception + pystr" where
  "render_items env [] = Inr []"
| "render_items env (item # items) =
     and_then (render_item env item) (\<lambda>x.
     and_then (render_items env items) (\<lambda>xs. Inr (x @ xs)))"

text \<open>Lines 773 to 781: a result that is not a dict is printed by the f-string.\<close>

definition render_section :: "'w pyenv \<Rightarrow> pyval \<Rightarrow> pyexception + pystr" where
  "render_section env result_data =
     (case result_data of
        PDict items \<Rightarrow> render_items env items
      | _ \<Rightarrow> Inr (py_format env result_data @ [10, 10]))"

text \<open>\<^verbatim>\<open>report += v\<close> for a string \<open>report\<close>: a \<^verbatim>\<open>TypeError\<close> unless \<open>v\<close> is a string.\<close>

definition str_add :: "pystr \<Rightarrow> pyval \<Rightarrow> pyexception + pystr" where
  "str_add report v = (case v of PStr s \<Rightarrow> Inr (report @ s) | _ \<Rightarrow> Inl TypeError)"

text \<open>
  Lines 763 to 817. \<open>now\<close> is the text \<^verbatim>\<open>datetime.now().strftime(...)\<close> gives at line 768;
  \<open>results\<close> is \<^verbatim>\<open>self.results\<close>.
\<close>

definition generate_combined_report ::
  "'w pyenv \<Rightarrow> pystr \<Rightarrow> (pystr \<times> pyval) list \<Rightarrow> pyexception + pystr" where
  "generate_combined_report env now results =
     and_then (render_section env (dict_get results key_clauses (PDict []))) (\<lambda>clauses.
     and_then (render_section env (dict_get results key_risk (PDict []))) (\<lambda>risk.
     and_then (render_section env (dict_get results key_compliance (PDict []))) (\<lambda>compliance.
     and_then
       (str_add
          (report_title @ date_prefix @ now @ [10, 10] @ heading_clauses @ clauses @
           heading_risk @ risk @ heading_compliance @ compliance @ heading_report)
          (dict_get results key_report (PStr []))) (\<lambda>report.
     str_add (report @ heading_accuracy) (dict_get results key_accuracy (PStr []))))))"

section \<open>A stub service\<close>

text \<open>
  An environment in which the model runs on concrete inputs: the service replays a
  script of outcomes, one for each request, and refuses the connection when the script
  is used up; \<open>json_dumps\<close> never raises; the decoder accepts 4300 digits and a
  nesting depth of 1000.
\<close>

definition completion_body :: "pyval \<Rightarrow> pyval" where
  "completion_body content =
     PDict [(ascii ''choices'',
             PList [PDict [(ascii ''message'', PDict [(ascii ''content'', content)])]])]"

definition http_response :: "int \<Rightarrow> pyval \<Rightarrow> response" where
  "http_response code content =
     \<lparr>status_code = code, resp_text = ascii ''body'', resp_json = Inr (completion_body content)\<rparr>"

definition stub_env :: "(pyexception + response) list pyenv" where
  "stub_env =
     \<lparr>requests_post =
        (\<lambda>req w. case w of
                    [] \<Rightarrow> (Inl (OtherError (ascii ''connection refused'')), [])
                  | out # rest \<Rightarrow> (out, rest)),
      json_dumps = (\<lambda>v. Inr (ascii ''{}'')),
      str_of_value = (\<lambda>v. ascii ''None''),
      str_of_exception = (\<lambda>e. case e of OtherError m \<Rightarrow> m | _ \<Rightarrow> ascii ''error''),
      json_limits = \<lparr>int_max_str_digits = 4300, max_nesting = 1000\<rparr>\<rparr>"

definition stub_config :: APIConfig where
  "stub_config =
     \<lparr>api_base_url = ascii ''https://api.deepseek.com/v1'', api_key = ascii ''sk-test'',
      model_name = ascii ''deepseek-chat'', temperature = ascii ''0.2'', max_tokens = 8000\<rparr>"

definition stub_net :: "(pyexception + response) list \<Rightarrow> (pyexception + response) list net" where
  "stub_net script = \<lparr>sent = [], world = script\<rparr>"

lemma message_content_completion [simp]: "message_content (http_response code c) = Inr c"
  by (simp add: message_content_def http_response_def completion_body_def and_then_def
      getitem_key_def getitem_index_def ascii_def)


definition ok_reply :: "pyexception + response" where
  "ok_reply = Inr (http_response 200 (PStr (ascii ''{}'')))"

lemma call_api_stub_response:
  "call_api stub_env cfg p sp \<lparr>sent = l, world = Inr (http_response 200 c) # rest\<rparr> =
     (c, \<lparr>sent = l @ [api_request cfg p sp], world = rest\<rparr>)"
  by (simp add: call_api_def stub_env_def Let_def)
     (simp add: http_response_def)

lemma call_api_stub_raise:
  "call_api stub_env cfg p sp \<lparr>sent = l, world = Inl (OtherError m) # rest\<rparr> =
     (PStr (msg_api_exception @ m), \<lparr>sent = l @ [api_request cfg p sp], world = rest\<rparr>)"
  by (simp add: call_api_def stub_env_def Let_def)

lemma parse_reply_empty_object: "parse_reply stub_env (PStr (ascii ''{}'')) = PDict []"
  by (simp add: parse_reply_def strip_fences_def delete_fences_def str_strip_def trim_def
      py_isspace_def ascii_def stub_env_def
      fence_json_def fence_def str_replace.simps json_loads_def json_ws_def cons_token_def
      parse_step_def begin_value_def end_container_def complete_value_def scan_literal_def)

lemma stub_json_dumps: "json_dumps stub_env v = Inr (ascii ''{}'')"
  by (simp add: stub_env_def)

lemmas agent_defs =
  ClauseExtractionAgent_analyze_def RiskAnalysisAgent_analyze_def
  ComplianceAnalysisAgent_analyze_def ReportGenerationAgent_generate_def
  AccuracyCheckAgent_check_def

definition failing_script :: "(pyexception + response) list" where
  "failing_script =
     [ok_reply, Inl (OtherError (ascii ''timed out'')), ok_reply, ok_reply, ok_reply]"


definition stub_app :: "pystr \<Rightarrow> pystr \<Rightarrow> app" where
  "stub_app contract_text key =
     \<lparr>app_contract_text = contract_text,
      app_api_config = stub_config\<lparr>api_key := key\<rparr>,
      process_button_enabled = True, progress_bar_value = 0, status_message = [],
      message_boxes = [], api_settings_shown = False, processing_thread = None,
      app_results = None, save_action_enabled = False\<rparr>"

definition null_report_script :: "(pyexception + response) list" where
  "null_report_script = [ok_reply, ok_reply, ok_reply, Inr (http_response 200 PNone), ok_reply]"


definition bad_fenced_reply :: pystr where
  "bad_fenced_reply = fence_json @ [10] @ ascii ''[1, 2,]'' @ [10] @ fence"

section \<open>The requests of a run\<close>

lemma call_api_sent:
  "call_api env cfg p sp s = (v, s') \<Longrightarrow> sent s' = sent s @ [api_request cfg p sp]"
  by (auto simp: call_api_def Let_def split: prod.splits sum.splits if_splits)

lemma clause_analyze_sent:
  "ClauseExtractionAgent_analyze env cfg contract_text s = (c, s') \<Longrightarrow>
   sent s' = sent s @ [api_request cfg (clause_prompt_prefix @ contract_text) clause_system_prompt]"
  by (auto simp: ClauseExtractionAgent_analyze_def Let_def split: prod.splits dest: call_api_sent)

lemma risk_analyze_sent:
  "RiskAnalysisAgent_analyze env cfg c s = (Inr r, s') \<Longrightarrow>
   \<exists>cj. json_dumps env c = Inr cj \<and>
        sent s' = sent s @ [api_request cfg (risk_prompt_prefix @ cj) risk_system_prompt]"
  by (auto simp: RiskAnalysisAgent_analyze_def Let_def split: prod.splits sum.splits
           dest: call_api_sent)

lemma compliance_analyze_sent:
  "ComplianceAnalysisAgent_analyze env cfg c None s = (Inr k, s') \<Longrightarrow>
   \<exists>cj. json_dumps env c = Inr cj \<and>
        sent s' = sent s @
          [api_request cfg (compliance_prompt_prefix @ cj)
             (compliance_system_prefix @ default_compliance_rules @ compliance_system_suffix)]"
  by (auto simp: ComplianceAnalysisAgent_analyze_def Let_def split: prod.splits sum.splits
           dest: call_api_sent)

lemma report_generate_sent:
  "ReportGenerationAgent_generate env cfg c r k s = (Inr rep, s') \<Longrightarrow>
   \<exists>cj. json_dumps env (PDict [(key_clause_info, c), (key_risk, r), (key_compliance, k)]) = Inr cj \<and>
        sent s' = sent s @ [api_request cfg (report_prompt_prefix @ cj) report_system_prompt]"
  by (auto simp: ReportGenerationAgent_generate_def Let_def split: prod.splits sum.splits
           dest: call_api_sent)

lemma accuracy_check_sent:
  "AccuracyCheckAgent_check env cfg contract_text rep s = (a, s') \<Longrightarrow>
   sent s' = sent s @
     [api_request cfg
        (accuracy_prompt_head @ contract_text @ accuracy_prompt_middle @ py_format env rep @
         accuracy_prompt_tail) accuracy_system_prompt]"
  by (auto simp: AccuracyCheckAgent_check_def Let_def dest: call_api_sent)

lemma result_keys_distinct:
  "distinct [key_clauses, key_risk, key_compliance, key_report, key_accuracy]"
  by (simp add: key_clauses_def key_risk_def key_compliance_def key_report_def key_accuracy_def)

lemma results_in_order:
  "dict_set (dict_set (dict_set (dict_set (dict_set [] key_clauses c) key_risk r)
      key_compliance k) key_report rep) key_accuracy a =
   [(key_clauses, c), (key_risk, r), (key_compliance, k), (key_report, rep), (key_accuracy, a)]"
  using result_keys_distinct by auto


text \<open>
  C1. In a run that completes, the five requests are sent in stage order and each is
  built from the outputs of the stages it depends on, as they stand in the delivered
  results: the risk and the compliance request carry the \<^verbatim>\<open>json.dumps\<close> text of the clause
  extraction result (the parsed value or the error record, never the reply text), the
  report request carries the three structured results, and the accuracy request carries
  the contract text and the report. No request is built from the output of a later
  stage.
\<close>

theorem run_stage_inputs:
  assumes run: "run env cfg contract_text s = (sigs, s')"
      and fin: "completions sigs \<noteq> []"
  shows "\<exists>clause_data risk_data compliance_data report accuracy_check clause_json combined_json.
           completions sigs =
             [[(key_clauses, clause_data), (key_risk, risk_data),
               (key_compliance, compliance_data), (key_report, report),
               (key_accuracy, accuracy_check)]] \<and>
           clause_data = fst (ClauseExtractionAgent_analyze env cfg contract_text s) \<and>
           json_dumps env clause_data = Inr clause_json \<and>
           json_dumps env (PDict [(key_clause_info, clause_data), (key_risk, risk_data),
                                  (key_compliance, compliance_data)]) = Inr combined_json \<and>
           sent s' = sent s @
             [api_request cfg (clause_prompt_prefix @ contract_text) clause_system_prompt,
              api_request cfg (risk_prompt_prefix @ clause_json) risk_system_prompt,
              api_request cfg (compliance_prompt_prefix @ clause_json)
                (compliance_system_prefix @ default_compliance_rules @ compliance_system_suffix),
              api_request cfg (report_prompt_prefix @ combined_json) report_system_prompt,
              api_request cfg
                (accuracy_prompt_head @ contract_text @ accuracy_prompt_middle @
                 py_format env report @ accuracy_prompt_tail) accuracy_system_prompt]"
proof -
  obtain c s1 where c: "ClauseExtractionAgent_analyze env cfg contract_text s = (c, s1)"
    by (cases "ClauseExtractionAgent_analyze env cfg contract_text s")
  from run fin c obtain r s2 where r: "RiskAnalysisAgent_analyze env cfg c s1 = (Inr r, s2)"
    by (auto simp: run_def Let_def split: prod.splits sum.splits)
  from run fin c r obtain k s3 where
    k: "ComplianceAnalysisAgent_analyze env cfg c None s2 = (Inr k, s3)"
    by (auto simp: run_def Let_def split: prod.splits sum.splits)
  from run fin c r k obtain rep s4 where
    rep: "ReportGenerationAgent_generate env cfg c r k s3 = (Inr rep, s4)"
    by (auto simp: run_def Let_def split: prod.splits sum.splits)
  obtain a s5 where a: "AccuracyCheckAgent_check env cfg contract_text rep s4 = (a, s5)"
    by (cases "AccuracyCheckAgent_check env cfg contract_text rep s4")
  from run c r k rep a have s': "s' = s5"
    and sigs: "completions sigs =
      [dict_set (dict_set (dict_set (dict_set (dict_set [] key_clauses c) key_risk r)
         key_compliance k) key_report rep) key_accuracy a]"
    by (auto simp: run_def Let_def)
  from risk_analyze_sent[OF r] obtain cj where
    cj: "json_dumps env c = Inr cj"
    and s2: "sent s2 = sent s1 @ [api_request cfg (risk_prompt_prefix @ cj) risk_system_prompt]"
    by blast
  from compliance_analyze_sent[OF k] cj have
    s3: "sent s3 = sent s2 @
          [api_request cfg (compliance_prompt_prefix @ cj)
             (compliance_system_prefix @ default_compliance_rules @ compliance_system_suffix)]"
    by auto
  from report_generate_sent[OF rep] obtain bj where
    bj: "json_dumps env (PDict [(key_clause_info, c), (key_risk, r), (key_compliance, k)]) = Inr bj"
    and s4: "sent s4 = sent s3 @ [api_request cfg (report_prompt_prefix @ bj) report_system_prompt]"
    by blast
  note sigs = sigs[unfolded results_in_order]
  note s1 = clause_analyze_sent[OF c]
  note s5 = accuracy_check_sent[OF a]
  show ?thesis
    apply (rule exI[of _ c], rule exI[of _ r], rule exI[of _ k], rule exI[of _ rep],
           rule exI[of _ a], rule exI[of _ cj], rule exI[of _ bj])
    using sigs c cj bj s' s1 s2 s3 s4 s5 by simp
qed


theorem run_stage_inputs_witness:
  "completions (fst (run stub_env stub_config (ascii ''contract'')
       (stub_net [ok_reply, ok_reply, ok_reply, ok_reply, ok_reply]))) \<noteq> [] \<and>
   map req_url (sent (snd (run stub_env stub_config (ascii ''contract'')
       (stub_net [ok_reply, ok_reply, ok_reply, ok_reply, ok_reply])))) =
     replicate 5 (ascii ''https://api.deepseek.com/v1/chat/completions'')"
proof -
  let ?r = "run stub_env stub_config (ascii ''contract'')
       (stub_net [ok_reply, ok_reply, ok_reply, ok_reply, ok_reply])"
  have fin: "completions (fst ?r) \<noteq> []"
    by (simp add: run_def agent_defs stub_net_def ok_reply_def call_api_stub_response
        parse_reply_empty_object stub_json_dumps Let_def)
  from run_stage_inputs[OF prod.collapse[symmetric] fin]
  have "map req_url (sent (snd ?r)) =
        replicate 5 (api_base_url stub_config @ ascii ''/chat/completions'')"
    by (auto simp: api_request_def stub_net_def numeral_eq_Suc)
  with fin show ?thesis by (simp add: stub_config_def ascii_def)
qed

section \<open>The progress notifications\<close>

text \<open>
  C7. A run that completes has emitted exactly eleven progress notifications, with the
  percent values 10, 20, 35, 40, 55, 60, 75, 80, 90, 91, 100 in this order (one before and
  one after each of the five stages, after the first at 10), followed by the
  completion; the sequence of percent values is non-decreasing.
\<close>

theorem run_progress_schedule:
  assumes "run env cfg contract_text s = (sigs, s')" and "completions sigs \<noteq> []"
  shows "(\<exists>results. sigs =
           [progress_updated 10 msg_init, progress_updated 20 msg_extracting,
            progress_updated 35 msg_extracted, progress_updated 40 msg_risk_running,
            progress_updated 55 msg_risk_done, progress_updated 60 msg_compliance_running,
            progress_updated 75 msg_compliance_done, progress_updated 80 msg_report_running,
            progress_updated 90 msg_report_done, progress_updated 91 msg_accuracy_running,
            progress_updated 100 msg_accuracy_done, processing_complete results]) \<and>
         percents sigs = [10, 20, 35, 40, 55, 60, 75, 80, 90, 91, 100] \<and>
         sorted (percents sigs)"
  using assms by (auto simp: run_def Let_def split: prod.splits sum.splits)


theorem run_progress_schedule_witness:
  "completions (fst (run stub_env stub_config (ascii ''contract'')
       (stub_net [ok_reply, ok_reply, ok_reply, ok_reply, ok_reply]))) \<noteq> [] \<and>
   percents (fst (run stub_env stub_config (ascii ''contract'')
       (stub_net [ok_reply, ok_reply, ok_reply, ok_reply, ok_reply]))) =
     [10, 20, 35, 40, 55, 60, 75, 80, 90, 91, 100]"
proof -
  let ?r = "run stub_env stub_config (ascii ''contract'')
       (stub_net [ok_reply, ok_reply, ok_reply, ok_reply, ok_reply])"
  have fin: "completions (fst ?r) \<noteq> []"
    by (simp add: run_def agent_defs stub_net_def ok_reply_def call_api_stub_response
        parse_reply_empty_object stub_json_dumps Let_def)
  from run_progress_schedule[OF prod.collapse[symmetric] fin] fin show ?thesis by blast
qed


section \<open>A transport failure in the second stage\<close>

lemma trim_keeps_head:
  assumes "\<not> P c"
  shows "trim P (c # cs) = c # rev (dropWhile P (rev cs))"
  using assms by (simp add: trim_def dropWhile_append3)

lemma str_replace_keeps_head:
  assumes "old \<noteq> []" and "hd old \<noteq> c"
  shows "str_replace (c # t) old new = c # str_replace t old new"
proof -
  from assms have "\<not> prefix old (c # t)" by (cases old) auto
  with assms(1) show ?thesis by (subst str_replace.simps) simp
qed

lemma strip_fences_keeps_head:
  assumes "\<not> py_isspace c" and "c \<noteq> 96"
  shows "\<exists>t. strip_fences (c # cs) = c # t"
  using assms
  by (simp add: strip_fences_def delete_fences_def str_strip_def trim_keeps_head str_replace_keeps_head
      fence_json_def fence_def ascii_def)

lemma json_loads_letter_A: "json_loads lim (65 # cs) = None"
  by (simp add: json_loads_def trim_keeps_head json_ws_def ascii_def scan_literal_def
      scan_number_def scan_sign_def scan_int_def is_digit_def)

lemma parse_reply_api_exception:
  "parse_reply env (PStr (msg_api_exception @ m)) =
     parse_error_record (strip_fences (msg_api_exception @ m))"
proof -
  obtain t where "strip_fences (msg_api_exception @ m) = 65 # t"
    using strip_fences_keeps_head[of 65] by (auto simp: msg_api_exception_def py_isspace_def)
  then show ?thesis by (simp add: parse_reply_def json_loads_letter_A)
qed

lemma call_api_raise:
  assumes "fst (requests_post env (api_request cfg p sp) (world s)) = Inl e"
  shows "fst (call_api env cfg p sp s) = PStr (msg_api_exception @ str_of_exception env e)"
  using assms by (auto simp: call_api_def Let_def split: prod.splits)

lemma call_api_world:
  "world (snd (call_api env cfg p sp s)) = snd (requests_post env (api_request cfg p sp) (world s))"
  by (auto simp: call_api_def Let_def split: prod.splits sum.splits)

lemma compliance_analyze_returns:
  "json_dumps env c = Inr cj \<Longrightarrow>
   \<exists>k s'. ComplianceAnalysisAgent_analyze env cfg c None s = (Inr k, s')"
  by (simp add: ComplianceAnalysisAgent_analyze_def Let_def split_beta)

lemma report_generate_returns:
  "json_dumps env (PDict [(key_clause_info, c), (key_risk, r), (key_compliance, k)]) = Inr bj \<Longrightarrow>
   \<exists>rep s'. ReportGenerationAgent_generate env cfg c r k s = (Inr rep, s')"
  by (simp add: ReportGenerationAgent_generate_def Let_def split_beta)

lemma run_unfold:
  assumes "ClauseExtractionAgent_analyze env cfg contract_text s = (c, s1)"
      and "RiskAnalysisAgent_analyze env cfg c s1 = (Inr r, s2)"
      and "ComplianceAnalysisAgent_analyze env cfg c None s2 = (Inr k, s3)"
      and "ReportGenerationAgent_generate env cfg c r k s3 = (Inr rep, s4)"
      and "AccuracyCheckAgent_check env cfg contract_text rep s4 = (a, s5)"
  shows "run env cfg contract_text s =
           ([progress_updated 10 msg_init, progress_updated 20 msg_extracting,
             progress_updated 35 msg_extracted, progress_updated 40 msg_risk_running,
             progress_updated 55 msg_risk_done, progress_updated 60 msg_compliance_running,
             progress_updated 75 msg_compliance_done, progress_updated 80 msg_report_running,
             progress_updated 90 msg_report_done, progress_updated 91 msg_accuracy_running,
             progress_updated 100 msg_accuracy_done,
             processing_complete
               [(key_clauses, c), (key_risk, r), (key_compliance, k), (key_report, rep),
                (key_accuracy, a)]], s5)"
  using assms result_keys_distinct by (simp add: run_def Let_def)


text \<open>
  C3 as stated fails: the stub service answers the first request, raises on the second
  (the risk analysis request) and answers the rest. The run emits no failure
  notification and one completion, and its fourth and fifth requests are those of the
  report agent and of the accuracy check agent.
\<close>

lemma failing_run:
  "run stub_env stub_config (ascii ''contract'') (stub_net failing_script) =
     ([progress_updated 10 msg_init, progress_updated 20 msg_extracting,
       progress_updated 35 msg_extracted, progress_updated 40 msg_risk_running,
       progress_updated 55 msg_risk_done, progress_updated 60 msg_compliance_running,
       progress_updated 75 msg_compliance_done, progress_updated 80 msg_report_running,
       progress_updated 90 msg_report_done, progress_updated 91 msg_accuracy_running,
       progress_updated 100 msg_accuracy_done,
       processing_complete
         [(key_clauses, PDict []),
          (key_risk, parse_error_record (strip_fences (msg_api_exception @ ascii ''timed out''))),
          (key_compliance, PDict []), (key_report, PStr (ascii ''{}'')),
          (key_accuracy, PStr (ascii ''{}''))]],
      \<lparr>sent =
         [api_request stub_config (clause_prompt_prefix @ ascii ''contract'') clause_system_prompt,
          api_request stub_config (risk_prompt_prefix @ ascii ''{}'') risk_system_prompt,
          api_request stub_config (compliance_prompt_prefix @ ascii ''{}'')
            (compliance_system_prefix @ default_compliance_rules @ compliance_system_suffix),
          api_request stub_config (report_prompt_prefix @ ascii ''{}'') report_system_prompt,
          api_request stub_config
            (accuracy_prompt_head @ ascii ''contract'' @ accuracy_prompt_middle @ ascii ''{}'' @
             accuracy_prompt_tail) accuracy_system_prompt],
       world = []\<rparr>)"
  using result_keys_distinct
  by (simp add: run_def agent_defs stub_net_def failing_script_def ok_reply_def
      call_api_stub_response call_api_stub_raise parse_reply_empty_object stub_json_dumps
      parse_reply_api_exception py_format_def Let_def)


theorem transport_failure_counterexample:
  "failing_script ! 1 = Inl (OtherError (ascii ''timed out'')) \<and>
   failures (fst (run stub_env stub_config (ascii ''contract'') (stub_net failing_script))) = [] \<and>
   length (completions (fst (run stub_env stub_config (ascii ''contract'')
             (stub_net failing_script)))) = 1 \<and>
   sent (snd (run stub_env stub_config (ascii ''contract'') (stub_net failing_script))) ! 3 =
     api_request stub_config (report_prompt_prefix @ ascii ''{}'') report_system_prompt \<and>
   sent (snd (run stub_env stub_config (ascii ''contract'') (stub_net failing_script))) ! 4 =
     api_request stub_config
       (accuracy_prompt_head @ ascii ''contract'' @ accuracy_prompt_middle @ ascii ''{}'' @
        accuracy_prompt_tail) accuracy_system_prompt"
  by (simp add: failing_run) (simp add: failing_script_def)


text \<open>
  C3, amended. When the transport raises on the request of the risk analysis stage (and
  \<^verbatim>\<open>json.dumps\<close> does not raise), \<open>call_api\<close> returns the error string, the risk result
  is the parse-error record that holds it, and the run goes on: it emits no failure
  notification, all eleven progress notifications and one completion, and sends all
  five requests.
\<close>

theorem transport_failure_is_soft:
  assumes dumps: "\<And>v. \<exists>t. json_dumps env v = Inr t"
      and fail: "\<And>req. fst (requests_post env req
                   (world (snd (ClauseExtractionAgent_analyze env cfg contract_text s)))) = Inl e"
      and run: "run env cfg contract_text s = (sigs, s')"
  shows "failures sigs = [] \<and>
         (\<exists>results. completions sigs = [results] \<and>
            map_of results key_risk =
              Some (parse_error_record
                      (strip_fences (msg_api_exception @ str_of_exception env e)))) \<and>
         percents sigs = [10, 20, 35, 40, 55, 60, 75, 80, 90, 91, 100] \<and>
         length (sent s') = length (sent s) + 5"
proof -
  obtain c s1 where c: "ClauseExtractionAgent_analyze env cfg contract_text s = (c, s1)"
    by (cases "ClauseExtractionAgent_analyze env cfg contract_text s")
  from dumps obtain cj where cj: "json_dumps env c = Inr cj" by blast
  let ?r = "parse_error_record (strip_fences (msg_api_exception @ str_of_exception env e))"
  obtain v2 s2 where v2: "call_api env cfg (risk_prompt_prefix @ cj) risk_system_prompt s1 = (v2, s2)"
    by (cases "call_api env cfg (risk_prompt_prefix @ cj) risk_system_prompt s1")
  from fail c call_api_raise[of env cfg "risk_prompt_prefix @ cj" risk_system_prompt s1 e] v2
  have "v2 = PStr (msg_api_exception @ str_of_exception env e)" by simp
  with cj v2 have r: "RiskAnalysisAgent_analyze env cfg c s1 = (Inr ?r, s2)"
    by (simp add: RiskAnalysisAgent_analyze_def parse_reply_api_exception)
  obtain k s3 where k: "ComplianceAnalysisAgent_analyze env cfg c None s2 = (Inr k, s3)"
    using compliance_analyze_returns[OF cj] by blast
  obtain rep s4 where rep: "ReportGenerationAgent_generate env cfg c ?r k s3 = (Inr rep, s4)"
    using dumps[of "PDict [(key_clause_info, c), (key_risk, ?r), (key_compliance, k)]"]
      report_generate_returns by blast
  obtain a s5 where a: "AccuracyCheckAgent_check env cfg contract_text rep s4 = (a, s5)"
    by (cases "AccuracyCheckAgent_check env cfg contract_text rep s4")
  from run run_unfold[OF c r k rep a] have sigs: "sigs =
           [progress_updated 10 msg_init, progress_updated 20 msg_extracting,
             progress_updated 35 msg_extracted, progress_updated 40 msg_risk_running,
             progress_updated 55 msg_risk_done, progress_updated 60 msg_compliance_running,
             progress_updated 75 msg_compliance_done, progress_updated 80 msg_report_running,
             progress_updated 90 msg_report_done, progress_updated 91 msg_accuracy_running,
             progress_updated 100 msg_accuracy_done,
             processing_complete
               [(key_clauses, c), (key_risk, ?r), (key_compliance, k), (key_report, rep),
                (key_accuracy, a)]]" and s': "s' = s5"
    by simp_all
  have len: "length (sent s5) = length (sent s) + 5"
    using clause_analyze_sent[OF c] risk_analyze_sent[OF r] compliance_analyze_sent[OF k]
      report_generate_sent[OF rep] accuracy_check_sent[OF a] by auto
  have "key_risk \<noteq> key_clauses" using result_keys_distinct by auto
  with sigs s' len show ?thesis by simp
qed


theorem transport_failure_is_soft_witness:
  "failures (fst (run stub_env stub_config (ascii ''contract'') (stub_net failing_script))) = [] \<and>
   length (sent (snd (run stub_env stub_config (ascii ''contract'') (stub_net failing_script)))) = 5"
proof -
  have d: "\<exists>t. json_dumps stub_env v = Inr t" for v by (simp add: stub_json_dumps)
  have f: "fst (requests_post stub_env req
             (world (snd (ClauseExtractionAgent_analyze stub_env stub_config (ascii ''contract'')
                (stub_net failing_script))))) = Inl (OtherError (ascii ''timed out''))" for req
    by (simp add: agent_defs stub_net_def failing_script_def ok_reply_def
        call_api_stub_response Let_def)
       (simp add: stub_env_def)
  from transport_failure_is_soft[OF d f prod.collapse[symmetric]]
  show ?thesis by (simp add: stub_net_def)
qed



section \<open>What call_api returns\<close>

lemma stub_post:
  "requests_post stub_env req (world (stub_net (out # rest))) = (out, rest)"
  by (simp add: stub_env_def stub_net_def)

lemma message_content_not_json: "resp_json r = Inl e \<Longrightarrow> message_content r = Inl e"
  by (simp add: message_content_def and_then_def)

lemma int_str_201: "int_str 201 = ascii ''201''"
  by code_simp

lemma int_str_404: "int_str 404 = ascii ''404''"
  by code_simp


text \<open>
  C2 as stated fails for a 2xx status other than 200: line 54 tests
  \<^verbatim>\<open>status_code == 200\<close>. A 201 response whose body holds the completion \<^verbatim>\<open>hello\<close> gives
  the failure string, not the content.
\<close>

theorem call_api_2xx_counterexample:
  "status_code (http_response 201 (PStr (ascii ''hello''))) = 201 \<and>
   message_content (http_response 201 (PStr (ascii ''hello''))) = Inr (PStr (ascii ''hello'')) \<and>
   fst (call_api stub_env stub_config (ascii ''hi'') []
          (stub_net [Inr (http_response 201 (PStr (ascii ''hello'')))])) =
     PStr (msg_api_failed @ ascii ''201, body'') \<and>
   fst (call_api stub_env stub_config (ascii ''hi'') []
          (stub_net [Inr (http_response 201 (PStr (ascii ''hello'')))])) \<noteq> PStr (ascii ''hello'')"
  by (simp add: call_api_def Let_def stub_post)
     (simp add: http_response_def int_str_201, simp add: msg_api_failed_def ascii_def)


text \<open>
  C2, amended. If the response has status 200 and its JSON body has
  \<^verbatim>\<open>choices[0].message.content\<close>, \<open>call_api\<close> returns that content as it is; if the status
  is anything else (another 2xx included) it returns the failure string with the status
  and the response text; if the transport raises it returns the exception string with
  the text of the exception. All three are returned values.
\<close>

theorem call_api_outcomes:
  "(requests_post env (api_request cfg p sp) (world s) = (Inr r, w') \<and> status_code r = 200 \<and>
      message_content r = Inr c \<longrightarrow>
    fst (call_api env cfg p sp s) = c) \<and>
   (requests_post env (api_request cfg p sp) (world s) = (Inr r, w') \<and> status_code r \<noteq> 200 \<longrightarrow>
    fst (call_api env cfg p sp s) =
      PStr (msg_api_failed @ int_str (status_code r) @ ascii '', '' @ resp_text r)) \<and>
   (requests_post env (api_request cfg p sp) (world s) = (Inl e, w') \<longrightarrow>
    fst (call_api env cfg p sp s) = PStr (msg_api_exception @ str_of_exception env e))"
  by (simp add: call_api_def Let_def)


theorem call_api_outcomes_witness:
  "fst (call_api stub_env stub_config (ascii ''hi'') []
          (stub_net [Inr (http_response 200 (PStr (ascii ''hello'')))])) = PStr (ascii ''hello'') \<and>
   fst (call_api stub_env stub_config (ascii ''hi'') []
          (stub_net [Inr (http_response 404 PNone)])) = PStr (msg_api_failed @ ascii ''404, body'') \<and>
   fst (call_api stub_env stub_config (ascii ''hi'') []
          (stub_net [Inl (OtherError (ascii ''timed out''))])) =
     PStr (msg_api_exception @ ascii ''timed out'')"
proof -
  have a: "status_code (http_response 200 (PStr (ascii ''hello''))) = 200"
    and b: "status_code (http_response 404 PNone) \<noteq> 200"
    and t: "resp_text (http_response 404 PNone) = ascii ''body''"
    and i: "status_code (http_response 404 PNone) = 404"
    by (simp_all add: http_response_def)
  have e: "str_of_exception stub_env (OtherError (ascii ''timed out'')) = ascii ''timed out''"
    by (simp add: stub_env_def)
  from call_api_outcomes[of stub_env stub_config "ascii ''hi''" "[]"
        "stub_net [Inr (http_response 200 (PStr (ascii ''hello'')))]"
        "http_response 200 (PStr (ascii ''hello''))" "[]" "PStr (ascii ''hello'')"]
    call_api_outcomes[of stub_env stub_config "ascii ''hi''" "[]"
        "stub_net [Inr (http_response 404 PNone)]" "http_response 404 PNone" "[]"]
    call_api_outcomes[of stub_env stub_config "ascii ''hi''" "[]"
        "stub_net [Inl (OtherError (ascii ''timed out''))]" _ "[]" _
        "OtherError (ascii ''timed out'')"]
  show ?thesis by (simp add: stub_post a b t i e int_str_404) (simp add: ascii_def)
qed


text \<open>
  C9 as stated fails where it says that a string is returned: a 200 response whose body
  has \<^verbatim>\<open>null\<close> at \<^verbatim>\<open>choices[0].message.content\<close> makes \<open>call_api\<close> return \<^verbatim>\<open>None\<close>.
\<close>

theorem call_api_string_counterexample:
  "status_code (http_response 200 PNone) = 200 \<and>
   resp_json (http_response 200 PNone) = Inr (completion_body PNone) \<and>
   fst (call_api stub_env stub_config (ascii ''hi'') [] (stub_net [Inr (http_response 200 PNone)])) =
     PNone"
  by (simp add: call_api_stub_response stub_net_def) (simp add: http_response_def)


text \<open>
  C9, amended. \<open>call_api\<close> always returns a value: every exception of the transport, of
  \<^verbatim>\<open>response.json()\<close> and of the subscripts of line 55 is a branch that ends in a
  returned string. The value is a string, or it is the content found at
  \<^verbatim>\<open>choices[0].message.content\<close> of a 200 response, whatever its type. For a 200 response
  whose body is not JSON or lacks the path, the value is the exception string.
\<close>

theorem call_api_total:
  "((\<exists>t. fst (call_api env cfg p sp s) = PStr t) \<or>
    (\<exists>r. fst (requests_post env (api_request cfg p sp) (world s)) = Inr r \<and>
         status_code r = 200 \<and> message_content r = Inr (fst (call_api env cfg p sp s)))) \<and>
   (fst (requests_post env (api_request cfg p sp) (world s)) = Inr r \<and> status_code r = 200 \<and>
      message_content r = Inl e \<longrightarrow>
    fst (call_api env cfg p sp s) = PStr (msg_api_exception @ str_of_exception env e)) \<and>
   (resp_json r = Inl e \<longrightarrow> message_content r = Inl e) \<and>
   (resp_json r = Inr (PDict d) \<and> map_of d (ascii ''choices'') = None \<longrightarrow>
    message_content r = Inl (KeyError (PStr (ascii ''choices''))))"
  by (auto simp: call_api_def Let_def message_content_def and_then_def getitem_key_def
           split: prod.splits sum.splits)


theorem call_api_total_witness:
  "fst (call_api stub_env stub_config (ascii ''hi'') []
     (stub_net [Inr \<lparr>status_code = 200, resp_text = ascii ''<html>'',
                      resp_json = Inl (OtherError (ascii ''Expecting value''))\<rparr>])) =
   PStr (msg_api_exception @ ascii ''Expecting value'') \<and>
   fst (call_api stub_env stub_config (ascii ''hi'') []
     (stub_net [Inr \<lparr>status_code = 200, resp_text = ascii ''{}'', resp_json = Inr (PDict [])\<rparr>])) =
   PStr (msg_api_exception @ ascii ''error'')"
proof -
  let ?r1 = "\<lparr>status_code = 200, resp_text = ascii ''<html>'',
                resp_json = Inl (OtherError (ascii ''Expecting value''))\<rparr>"
  let ?r2 = "\<lparr>status_code = 200, resp_text = ascii ''{}'', resp_json = Inr (PDict [])\<rparr>"
  have e1: "str_of_exception stub_env (OtherError (ascii ''Expecting value'')) =
            ascii ''Expecting value''"
    and e2: "str_of_exception stub_env (KeyError (PStr (ascii ''choices''))) = ascii ''error''"
    by (simp_all add: stub_env_def)
  from call_api_total[of stub_env stub_config "ascii ''hi''" "[]" "stub_net [Inr ?r1]" ?r1
        "OtherError (ascii ''Expecting value'')" "[]"]
    call_api_total[of stub_env stub_config "ascii ''hi''" "[]" "stub_net [Inr ?r2]" ?r2
        "KeyError (PStr (ascii ''choices''))" "[]"]
  show ?thesis by (simp add: stub_post e1 e2)
qed



section \<open>Rejection of a run\<close>

text \<open>
  C6. When the contract text is empty or the API key is empty, \<open>process_contract\<close> shows a
  warning and returns: no worker thread is created or started, the button stays as it
  was, no signal is emitted (no stage is entered) and the network is untouched (no
  request is sent).
\<close>

theorem empty_input_rejected:
  assumes "app_contract_text a = [] \<or> api_key (app_api_config a) = []"
  shows "snd (process_contract a) = None \<and>
         processing_thread (fst (process_contract a)) = processing_thread a \<and>
         process_button_enabled (fst (process_contract a)) = process_button_enabled a \<and>
         (\<exists>title text. message_boxes (fst (process_contract a)) =
                          message_boxes a @ [Warning title text]) \<and>
         click_process env a s = (fst (process_contract a), [], s)"
  using assms by (auto simp: process_contract_def click_process_def)


theorem empty_input_rejected_witness:
  "click_process stub_env (stub_app [] (ascii ''sk-test'')) (stub_net [ok_reply]) =
     ((stub_app [] (ascii ''sk-test''))
        \<lparr>message_boxes := [Warning title_contract_empty text_contract_empty]\<rparr>,
      [], stub_net [ok_reply]) \<and>
   click_process stub_env (stub_app (ascii ''contract'') []) (stub_net [ok_reply]) =
     ((stub_app (ascii ''contract'') [])
        \<lparr>message_boxes := [Warning title_key_missing text_key_missing],
          api_settings_shown := True\<rparr>,
      [], stub_net [ok_reply])"
proof -
  have a: "app_contract_text (stub_app [] (ascii ''sk-test'')) = [] \<or>
           api_key (app_api_config (stub_app [] (ascii ''sk-test''))) = []"
    and b: "app_contract_text (stub_app (ascii ''contract'') []) = [] \<or>
           api_key (app_api_config (stub_app (ascii ''contract'') [])) = []"
    by (simp_all add: stub_app_def)
  from empty_input_rejected[OF a, of stub_env "stub_net [ok_reply]"]
    empty_input_rejected[OF b, of stub_env "stub_net [ok_reply]"]
  show ?thesis by (simp add: process_contract_def stub_app_def ascii_def)
qed


section \<open>The combined report\<close>

lemma render_items_returns:
  assumes "\<And>v. \<exists>t. json_dumps env v = Inr t"
  shows "\<exists>b. render_items env items = Inr b"
proof (induction items)
  case Nil
  show ?case by simp
next
  case (Cons item items)
  obtain k v where item: "item = (k, v)" by (cases item)
  from assms obtain t where "json_dumps env v = Inr t" by blast
  then have "\<exists>x. render_item env item = Inr x"
    by (simp add: render_item_def item and_then_def)
  with Cons.IH show ?case by (auto simp: and_then_def)
qed

lemma render_section_returns:
  assumes "\<And>v. \<exists>t. json_dumps env v = Inr t"
  shows "\<exists>b. render_section env v = Inr b"
  using render_items_returns[OF assms] by (cases v) (simp_all add: render_section_def)

lemma dict_get_results:
  "dict_get [(key_clauses, c), (key_risk, r), (key_compliance, k), (key_report, rep),
             (key_accuracy, a)] key_clauses d = c"
  "dict_get [(key_clauses, c), (key_risk, r), (key_compliance, k), (key_report, rep),
             (key_accuracy, a)] key_risk d = r"
  "dict_get [(key_clauses, c), (key_risk, r), (key_compliance, k), (key_report, rep),
             (key_accuracy, a)] key_compliance d = k"
  "dict_get [(key_clauses, c), (key_risk, r), (key_compliance, k), (key_report, rep),
             (key_accuracy, a)] key_report d = rep"
  "dict_get [(key_clauses, c), (key_risk, r), (key_compliance, k), (key_report, rep),
             (key_accuracy, a)] key_accuracy d = a"
  using result_keys_distinct by (auto simp: dict_get_def)


text \<open>
  For results whose report and accuracy check are strings (and with a \<^verbatim>\<open>json.dumps\<close>
  that does not raise) the document is the title, the date line and the five numbered
  sections in the order clauses, risk, compliance, report, accuracy check, each body
  made from the result of its stage.
\<close>

lemma combined_report_sections:
  assumes dumps: "\<And>v. \<exists>t. json_dumps env v = Inr t"
      and results: "results = [(key_clauses, c), (key_risk, r), (key_compliance, k),
                               (key_report, PStr report), (key_accuracy, PStr accuracy_check)]"
  shows "\<exists>clauses risk compliance.
           render_section env c = Inr clauses \<and>
           render_section env r = Inr risk \<and>
           render_section env k = Inr compliance \<and>
           generate_combined_report env now results =
             Inr (report_title @ date_prefix @ now @ [10, 10] @
                  heading_clauses @ clauses @
                  heading_risk @ risk @
                  heading_compliance @ compliance @
                  heading_report @ report @
                  heading_accuracy @ accuracy_check)"
proof -
  from render_section_returns[OF dumps] obtain b1 b2 b3 where
    "render_section env c = Inr b1" "render_section env r = Inr b2"
    "render_section env k = Inr b3"
    by metis
  then show ?thesis
    by (simp add: generate_combined_report_def results dict_get_results and_then_def str_add_def)
qed


lemma combined_report_sections_example:
  "generate_combined_report stub_env (ascii ''2026'')
     [(key_clauses, PDict [(ascii ''parties'', PStr (ascii ''A and B''))]),
      (key_risk, PDict [(ascii ''score'', PInt 40)]),
      (key_compliance, PDict [(ascii ''details'', PList [])]),
      (key_report, PStr (ascii ''report'')), (key_accuracy, PStr (ascii ''fine''))] =
   Inr (report_title @ date_prefix @ ascii ''2026'' @ [10, 10] @
        heading_clauses @ ascii ''### parties'' @ [10] @ ascii ''A and B'' @ [10, 10] @
        heading_risk @ ascii ''### score'' @ [10] @ ascii ''None'' @ [10, 10] @
        heading_compliance @ ascii ''### details'' @ [10] @ ascii ''```json'' @ [10] @
          ascii ''{}'' @ [10] @ ascii ''```'' @ [10, 10] @
        heading_report @ ascii ''report'' @
        heading_accuracy @ ascii ''fine'')"
proof -
  have d: "\<exists>t. json_dumps stub_env v = Inr t" for v by (simp add: stub_json_dumps)
  have f: "str_of_value stub_env v = ascii ''None''" for v by (simp add: stub_env_def)
  from combined_report_sections[OF d refl,
      where c = "PDict [(ascii ''parties'', PStr (ascii ''A and B''))]"
        and r = "PDict [(ascii ''score'', PInt 40)]"
        and k = "PDict [(ascii ''details'', PList [])]"
        and report = "ascii ''report''" and accuracy_check = "ascii ''fine''"
        and now = "ascii ''2026''"]
  show ?thesis
    by (simp add: render_section_def render_item_def is_container_def py_format_def
        stub_json_dumps and_then_def f)
       (simp add: ascii_def)
qed


text \<open>
  C8 at a failing input. The service answers the report stage with a 200 response
  whose content is \<^verbatim>\<open>null\<close>; the run completes with \<^verbatim>\<open>None\<close> as its report, and for this
  completed result the exporter raises \<^verbatim>\<open>TypeError\<close> at line 811 instead of producing
  the document. The first three sections print a value of any type through an
  f-string; the last two concatenate and so need a string.
\<close>

lemma null_report_run:
  "fst (run stub_env stub_config (ascii ''contract'') (stub_net null_report_script)) =
     [progress_updated 10 msg_init, progress_updated 20 msg_extracting,
      progress_updated 35 msg_extracted, progress_updated 40 msg_risk_running,
      progress_updated 55 msg_risk_done, progress_updated 60 msg_compliance_running,
      progress_updated 75 msg_compliance_done, progress_updated 80 msg_report_running,
      progress_updated 90 msg_report_done, progress_updated 91 msg_accuracy_running,
      progress_updated 100 msg_accuracy_done,
      processing_complete
        [(key_clauses, PDict []), (key_risk, PDict []), (key_compliance, PDict []),
         (key_report, PNone), (key_accuracy, PStr (ascii ''{}''))]]"
  using result_keys_distinct
  by (simp add: run_def agent_defs stub_net_def null_report_script_def ok_reply_def
      call_api_stub_response parse_reply_empty_object stub_json_dumps Let_def)


theorem combined_report_null_report:
  "completions (fst (run stub_env stub_config (ascii ''contract'') (stub_net null_report_script))) =
     [[(key_clauses, PDict []), (key_risk, PDict []), (key_compliance, PDict []),
       (key_report, PNone), (key_accuracy, PStr (ascii ''{}''))]] \<and>
   generate_combined_report stub_env (ascii ''2026'')
     [(key_clauses, PDict []), (key_risk, PDict []), (key_compliance, PDict []),
      (key_report, PNone), (key_accuracy, PStr (ascii ''{}''))] = Inl TypeError"
  by (simp add: null_report_run generate_combined_report_def dict_get_results and_then_def
      str_add_def render_section_def)



section \<open>Deleting the fence markers\<close>

lemma prefix_append_notin:
  assumes "prefix old (s @ c # t)" and "c \<notin> set old"
  shows "prefix old s"
proof -
  from assms(1) have "prefix old s \<or> (\<exists>us. old = s @ us \<and> prefix us (c # t))"
    by (simp add: prefix_append)
  then show ?thesis
  proof
    assume "prefix old s"
    then show ?thesis .
  next
    assume "\<exists>us. old = s @ us \<and> prefix us (c # t)"
    then obtain us where us: "old = s @ us" "prefix us (c # t)" by blast
    from us(2) assms(2) us(1) have "us = []" by (cases us) auto
    with us(1) show ?thesis by simp
  qed
qed

lemma str_replace_Nil: "old \<noteq> [] \<Longrightarrow> str_replace [] old new = []"
  by (subst str_replace.simps) simp

lemma str_replace_match:
  assumes "old \<noteq> []" and "prefix old s"
  shows "str_replace s old new = new @ str_replace (drop (length old) s) old new"
proof -
  from assms have "s \<noteq> []" by auto
  with assms show ?thesis by (subst str_replace.simps) simp
qed

lemma str_replace_skip:
  assumes "old \<noteq> []" and "\<not> prefix old (x # xs)"
  shows "str_replace (x # xs) old new = x # str_replace xs old new"
  using assms by (subst str_replace.simps) simp

lemma str_replace_split:
  assumes old: "old \<noteq> []" and c: "c \<notin> set old"
  shows "str_replace (s @ c # t) old new = str_replace s old new @ c # str_replace t old new"
proof (induction "length s" arbitrary: s rule: less_induct)
  case less
  show ?case
  proof (cases s)
    case Nil
    from old c have "\<not> prefix old (c # t)" by (cases old) auto
    with Nil old show ?thesis by (simp add: str_replace_skip str_replace_Nil)
  next
    case (Cons x xs)
    show ?thesis
    proof (cases "prefix old s")
      case True
      then have p: "prefix old (s @ c # t)" by (simp add: prefix_append)
      from True have len: "length old \<le> length s" by (rule prefix_length_le)
      from old Cons have "length (drop (length old) s) < length s" by (cases old) auto
      from less.hyps[OF this]
      have IH: "str_replace (drop (length old) s @ c # t) old new =
                str_replace (drop (length old) s) old new @ c # str_replace t old new" .
      have d: "drop (length old) (s @ c # t) = drop (length old) s @ c # t"
        using len by simp
      have "str_replace (s @ c # t) old new =
            new @ str_replace (drop (length old) (s @ c # t)) old new"
        by (rule str_replace_match[OF old p])
      also have "\<dots> = new @ str_replace (drop (length old) s) old new @ c # str_replace t old new"
        by (simp only: d IH)
      also have "\<dots> = str_replace s old new @ c # str_replace t old new"
        by (simp only: str_replace_match[OF old True, of new] append_assoc)
      finally show ?thesis .
    next
      case False
      have np: "\<not> prefix old (x # xs @ c # t)"
      proof
        assume "prefix old (x # xs @ c # t)"
        then have "prefix old (s @ c # t)" using Cons by simp
        from prefix_append_notin[OF this c] False show False by simp
      qed
      have "length xs < length s" using Cons by simp
      note IH = less.hyps[OF this]
      have a: "str_replace (x # xs @ c # t) old new = x # str_replace (xs @ c # t) old new"
        by (rule str_replace_skip[OF old np])
      have np': "\<not> prefix old (x # xs)" using False Cons by simp
      have b: "str_replace (x # xs) old new = x # str_replace xs old new"
        by (rule str_replace_skip[OF old np'])
      show ?thesis unfolding Cons append_Cons a b IH by simp
    qed
  qed
qed

lemma str_replace_pad_left:
  assumes old: "old \<noteq> []" and w: "set w \<inter> set old = {}"
  shows "str_replace (w @ s) old new = w @ str_replace s old new"
  using w
proof (induction w)
  case Nil
  show ?case by simp
next
  case (Cons c w)
  from Cons.prems old have np: "\<not> prefix old (c # (w @ s))" by (cases old) auto
  from Cons.prems have "set w \<inter> set old = {}" by simp
  from Cons.IH[OF this] str_replace_skip[OF old np, of new] show ?case by simp
qed

lemma str_replace_pad_right:
  assumes old: "old \<noteq> []" and w: "set w \<inter> set old = {}"
  shows "str_replace (s @ w) old new = str_replace s old new @ w"
  using w
proof (induction w arbitrary: s)
  case Nil
  show ?case by simp
next
  case (Cons c w)
  from Cons.prems have c: "c \<notin> set old" and w: "set w \<inter> set old = {}" by auto
  from Cons.IH[OF w, of "[]"] old have "str_replace w old new = w"
    by (simp add: str_replace_Nil)
  with str_replace_split[OF old c, of s w new] show ?case by simp
qed

lemma set_str_replace: "old \<noteq> [] \<Longrightarrow> set (str_replace s old []) \<subseteq> set s"
proof (induction "length s" arbitrary: s rule: less_induct)
  case less
  show ?case
  proof (cases s)
    case Nil
    with less.prems show ?thesis by (simp add: str_replace_Nil)
  next
    case (Cons x xs)
    show ?thesis
    proof (cases "prefix old s")
      case True
      from less.prems Cons have "length (drop (length old) s) < length s" by (cases old) auto
      from less.hyps[OF this less.prems] have "set (str_replace (drop (length old) s) old [])
          \<subseteq> set s" using set_drop_subset by fastforce
      then show ?thesis by (simp add: str_replace_match[OF less.prems True])
    next
      case False
      with less.hyps[of xs] less.prems Cons show ?thesis
        by (auto simp: str_replace_skip)
    qed
  qed
qed

lemma triple_deleted_head:
  assumes "\<not> prefix [a, a, a] (a # t)"
  shows "\<not> prefix [a, a] (str_replace t [a, a, a] [])"
proof (cases t)
  case Nil
  then show ?thesis by (simp add: str_replace_Nil)
next
  case (Cons x xs)
  show ?thesis
  proof (cases "x = a")
    case False
    with Cons show ?thesis by (simp add: str_replace_skip)
  next
    case True
    show ?thesis
    proof (cases xs)
      case Nil
      with Cons True show ?thesis by (simp add: str_replace_skip str_replace_Nil)
    next
      case (Cons y ys)
      with assms \<open>t = x # xs\<close> True have y: "y \<noteq> a" by simp
      with Cons \<open>t = x # xs\<close> True show ?thesis by (simp add: str_replace_skip)
    qed
  qed
qed

lemma triple_deleted: "\<not> sublist [a, a, a] (str_replace s [a, a, a] [])"
proof (induction "length s" arbitrary: s rule: less_induct)
  case less
  show ?case
  proof (cases s)
    case Nil
    then show ?thesis by (simp add: str_replace_Nil)
  next
    case (Cons x xs)
    show ?thesis
    proof (cases "prefix [a, a, a] s")
      case True
      from Cons have "length (drop (length [a, a, a]) s) < length s" by simp
      from less.hyps[OF this] True show ?thesis by (simp add: str_replace_match)
    next
      case False
      have IH: "\<not> sublist [a, a, a] (str_replace xs [a, a, a] [])"
        using less.hyps[of xs] Cons by simp
      have "\<not> prefix [a, a, a] (x # str_replace xs [a, a, a] [])"
      proof (cases "x = a")
        case True
        with False Cons triple_deleted_head[of a xs] show ?thesis by simp
      next
        case False
        then show ?thesis by simp
      qed
      with IH False Cons show ?thesis
        by (simp add: str_replace_skip sublist_Cons_right)
    qed
  qed
qed

lemma strip_fences_no_fence: "\<not> sublist fence (strip_fences r)"
  using triple_deleted[of 96] by (simp add: strip_fences_def delete_fences_def fence_def ascii_def)



section \<open>A reply inside a fenced block\<close>

lemma trim_pad:
  assumes "\<forall>c\<in>set w1. P c" and "\<forall>c\<in>set w2. P c"
  shows "trim P (w1 @ s @ w2) = trim P s"
proof -
  from assms(1) have a: "dropWhile P (w1 @ s @ w2) = dropWhile P (s @ w2)"
    by (simp add: dropWhile_append)
  show ?thesis
  proof (cases "\<forall>c\<in>set s. P c")
    case True
    with assms have "\<forall>c\<in>set (w1 @ s @ w2). P c" by auto
    then have "dropWhile P (w1 @ s @ w2) = []" by (simp only: dropWhile_eq_Nil_conv)
    moreover from True have "dropWhile P s = []" by (simp only: dropWhile_eq_Nil_conv)
    ultimately show ?thesis by (simp only: trim_def)
  next
    case False
    then have b: "dropWhile P (s @ w2) = dropWhile P s @ w2" by (auto simp: dropWhile_append)
    from assms(2) have "dropWhile P (rev w2 @ rev (dropWhile P s)) = dropWhile P (rev (dropWhile P s))"
      by (simp add: dropWhile_append)
    with a b show ?thesis by (simp add: trim_def)
  qed
qed

lemma json_loads_pad:
  assumes "\<forall>c\<in>set w1. json_ws c" and "\<forall>c\<in>set w2. json_ws c"
  shows "json_loads lim (w1 @ s @ w2) = json_loads lim s"
  by (simp add: json_loads_def trim_pad[OF assms])

lemma trim_decompose:
  "\<exists>w1 w2. s = w1 @ trim P s @ w2 \<and> w1 = takeWhile P s \<and>
           (trim P s \<noteq> [] \<longrightarrow> rev w2 = takeWhile P (rev s))"
proof -
  let ?a = "dropWhile P s"
  let ?w2 = "rev (takeWhile P (rev ?a))"
  have a: "?a = trim P s @ ?w2"
  proof -
    have "rev (takeWhile P (rev ?a) @ dropWhile P (rev ?a)) = ?a"
      by (simp only: takeWhile_dropWhile_id rev_rev_ident)
    then show ?thesis by (simp only: rev_append trim_def)
  qed
  have s: "s = takeWhile P s @ trim P s @ ?w2"
  proof -
    have "takeWhile P s @ ?a = s" by (rule takeWhile_dropWhile_id)
    with a show ?thesis by simp
  qed
  have w2: "rev ?w2 = takeWhile P (rev s)" if ne: "trim P s \<noteq> []"
  proof -
    from ne have "dropWhile P (rev ?a) \<noteq> []" by (simp add: trim_def)
    then obtain x where x: "x \<in> set (rev ?a)" "\<not> P x" by auto
    have "rev (takeWhile P s @ ?a) = rev ?a @ rev (takeWhile P s)" by (rule rev_append)
    then have r: "rev s = rev ?a @ rev (takeWhile P s)" by (simp only: takeWhile_dropWhile_id)
    have "takeWhile P (rev ?a @ rev (takeWhile P s)) = takeWhile P (rev ?a)"
      using x by (rule takeWhile_append1)
    with r show ?thesis by simp
  qed
  show ?thesis
    apply (rule exI[of _ "takeWhile P s"], rule exI[of _ ?w2])
    using s w2 by blast
qed

lemma trim_id:
  assumes "s \<noteq> []" and "\<not> P (hd s)" and "\<not> P (last s)"
  shows "trim P s = s"
proof -
  from assms(1,2) have a: "dropWhile P s = s" by (cases s) auto
  from assms(1,3) have "dropWhile P (rev s) = rev s" by (cases "rev s") (auto simp: hd_rev)
  with a show ?thesis by (simp add: trim_def)
qed

lemma fence_chars: "set fence = {96}" "set fence_json = {96, 106, 115, 111, 110}"
  "fence \<noteq> []" "fence_json \<noteq> []"
  by (auto simp: fence_def fence_json_def ascii_def)

lemma json_ws_not_fence:
  assumes "\<forall>c\<in>set w. json_ws c"
  shows "set w \<inter> set fence = {}" and "set w \<inter> set fence_json = {}"
  using assms by (auto simp: fence_chars json_ws_def)

lemma strip_fences_delete: "strip_fences r = delete_fences (str_strip r)"
  by (simp add: strip_fences_def)

lemma delete_fences_pad:
  assumes "set w1 \<inter> set fence = {}" "set w1 \<inter> set fence_json = {}"
      and "set w2 \<inter> set fence = {}" "set w2 \<inter> set fence_json = {}"
  shows "delete_fences (w1 @ s @ w2) = w1 @ delete_fences s @ w2"
proof -
  have "str_replace (w1 @ s @ w2) fence_json [] = w1 @ str_replace s fence_json [] @ w2"
    using str_replace_pad_left[OF fence_chars(4) assms(2)]
      str_replace_pad_right[OF fence_chars(4) assms(4)] by simp
  then show ?thesis
    using str_replace_pad_left[OF fence_chars(3) assms(1)]
      str_replace_pad_right[OF fence_chars(3) assms(3)] by (simp add: delete_fences_def)
qed

lemma delete_fences_wrapped:
  "delete_fences (fence_json @ [10] @ J @ [10] @ fence) = [10] @ delete_fences J @ [10]"
proof -
  have p: "prefix fence_json (fence_json @ [10] @ J @ [10] @ fence)" by simp
  have e1: "str_replace fence fence_json [] = fence"
    by (simp add: fence_def fence_json_def ascii_def str_replace.simps)
  have e2: "str_replace fence fence [] = []"
    by (simp add: fence_def ascii_def str_replace.simps)
  have n1: "10 \<notin> set fence_json" and n2: "10 \<notin> set fence" by (simp_all add: fence_chars)
  have "str_replace (fence_json @ [10] @ J @ [10] @ fence) fence_json [] =
        str_replace ([10] @ J @ [10] @ fence) fence_json []"
    using str_replace_match[OF fence_chars(4) p, of "[]"] by simp
  also have "\<dots> = [10] @ str_replace (J @ 10 # fence) fence_json []"
    using str_replace_pad_left[OF fence_chars(4), of "[10]" "J @ 10 # fence" "[]"] n1 by simp
  also have "\<dots> = [10] @ str_replace J fence_json [] @ 10 # fence"
    using str_replace_split[OF fence_chars(4) n1, of J fence "[]"] e1 by simp
  finally have a: "str_replace (fence_json @ [10] @ J @ [10] @ fence) fence_json [] =
                   [10] @ str_replace J fence_json [] @ 10 # fence" .
  have "str_replace ([10] @ str_replace J fence_json [] @ 10 # fence) fence [] =
        [10] @ str_replace (str_replace J fence_json [] @ 10 # fence) fence []"
    using str_replace_pad_left[OF fence_chars(3), of "[10]" _ "[]"] n2 by simp
  also have "\<dots> = [10] @ str_replace (str_replace J fence_json []) fence [] @ [10]"
    using str_replace_split[OF fence_chars(3) n2, of "str_replace J fence_json []" fence "[]"] e2
    by simp
  finally show ?thesis by (simp only: delete_fences_def a)
qed

lemma strip_fences_wrapped:
  "strip_fences (fence_json @ [10] @ J @ [10] @ fence) = [10] @ delete_fences J @ [10]"
proof -
  have "str_strip (fence_json @ [10] @ J @ [10] @ fence) = fence_json @ [10] @ J @ [10] @ fence"
    unfolding str_strip_def
    by (rule trim_id) (simp_all add: fence_json_def fence_def ascii_def py_isspace_def)
  then show ?thesis by (simp only: strip_fences_delete delete_fences_wrapped)
qed

lemma strip_fences_wrapped':
  "strip_fences (fence_json @ 10 # J @ 10 # fence) = 10 # delete_fences J @ [10]"
  using strip_fences_wrapped[of J] by simp

lemma json_loads_Nil: "json_loads lim [] = None"
  by (simp add: json_loads_def trim_def)

lemma delete_fences_Nil: "delete_fences [] = []"
  by (simp add: delete_fences_def str_replace_Nil fence_chars)

lemmas json_eval =
  json_loads_def trim_def json_ws_def cons_token_def parse_step_def begin_value_def
  end_container_def complete_value_def take_key_def scan_number_def scan_sign_def scan_int_def
  scan_frac_def scan_exp_def scan_exp_sign_def is_digit_def digits_value_def push_char_def
  backslash_escape_def hex4_def hexval_def scan_literal_def ascii_def

lemmas fence_eval =
  strip_fences_def delete_fences_def str_strip_def trim_def py_isspace_def fence_json_def fence_def
  str_replace.simps

lemma stub_limits:
  "int_max_str_digits (json_limits stub_env) = 4300"
  "max_nesting (json_limits stub_env) = 1000"
  by (simp_all add: stub_env_def)

lemma array_reply:
  "json_loads (json_limits stub_env) (strip_fences (ascii ''[1, 2]'')) =
     Some (PList [PInt 1, PInt 2])"
  by (simp add: fence_eval ascii_def) (simp add: json_eval stub_limits)


text \<open>
  A reply \<open>J\<close> that the agent decodes, with JSON white space around it, is decoded to the
  same value when it stands between the lines \<^verbatim>\<open>```json\<close> and \<^verbatim>\<open>```\<close>.
\<close>

lemma fenced_reply_decoded:
  assumes parses: "json_loads (json_limits env) (strip_fences J) = Some v"
      and lead: "\<forall>c\<in>set (takeWhile py_isspace J). json_ws c"
      and trail: "\<forall>c\<in>set (takeWhile py_isspace (rev J)). json_ws c"
  shows "parse_reply env (PStr (fence_json @ [10] @ J @ [10] @ fence)) = v \<and>
         parse_reply env (PStr J) = v"
proof -
  let ?W = "fence_json @ [10] @ J @ [10] @ fence"
  let ?V = "str_strip J"
  have V: "?V \<noteq> []"
  proof
    assume "?V = []"
    with parses show False
      by (simp add: strip_fences_delete delete_fences_Nil json_loads_Nil)
  qed
  from trim_decompose[of J py_isspace] V obtain w1 w2 where
    J: "J = w1 @ ?V @ w2" and w1: "w1 = takeWhile py_isspace J"
    and w2: "rev w2 = takeWhile py_isspace (rev J)"
    by (auto simp: str_strip_def)
  from lead w1 have ws1: "\<forall>c\<in>set w1. json_ws c" by simp
  from trail w2 have "\<forall>c\<in>set (rev w2). json_ws c" by simp
  then have ws2: "\<forall>c\<in>set w2. json_ws c" by simp
  have "delete_fences J = w1 @ delete_fences ?V @ w2"
    using delete_fences_pad[OF json_ws_not_fence[OF ws1] json_ws_not_fence[OF ws2], of ?V] J
    by simp
  then have "strip_fences ?W = (10 # w1) @ delete_fences ?V @ (w2 @ [10])"
    by (simp add: strip_fences_wrapped')
  moreover have "\<forall>c\<in>set (10 # w1). json_ws c" "\<forall>c\<in>set (w2 @ [10]). json_ws c"
    using ws1 ws2 by (simp_all add: json_ws_def)
  ultimately have "json_loads (json_limits env) (strip_fences ?W) =
      json_loads (json_limits env) (delete_fences ?V)"
    by (simp only: json_loads_pad)
  with parses have "json_loads (json_limits env) (strip_fences ?W) = Some v" by (simp add: strip_fences_delete)
  with parses show ?thesis by (simp add: parse_reply_def)
qed

subsection \<open>The white space around a JSON text\<close>

text \<open>
  A text that the decoder accepts begins and ends, inside the white space that the
  decoder skips, with a character that \<^verbatim>\<open>str.strip\<close> keeps: what \<^verbatim>\<open>strip\<close> removes
  from a JSON text is JSON white space.
\<close>

lemma consumed_Cons: "consumed Q t r \<Longrightarrow> consumed Q (a # t) r"
  unfolding consumed_def
proof -
  assume "\<exists>pre. t = pre @ r \<and> pre \<noteq> [] \<and> Q (last pre)"
  then obtain pre where "t = pre @ r" "pre \<noteq> []" "Q (last pre)" by blast
  then have "a # t = (a # pre) @ r \<and> a # pre \<noteq> [] \<and> Q (last (a # pre))" by simp
  then show "\<exists>pre. a # t = pre @ r \<and> pre \<noteq> [] \<and> Q (last pre)" by blast
qed

lemma consumed_drop: "consumed Q (drop n t) r \<Longrightarrow> consumed Q t r"
  unfolding consumed_def
proof -
  assume "\<exists>pre. drop n t = pre @ r \<and> pre \<noteq> [] \<and> Q (last pre)"
  then obtain pre where p: "drop n t = pre @ r" "pre \<noteq> []" "Q (last pre)" by blast
  have "t = take n t @ drop n t" by simp
  with p have "t = (take n t @ pre) @ r \<and> take n t @ pre \<noteq> [] \<and> Q (last (take n t @ pre))"
    by simp
  then show "\<exists>pre. t = pre @ r \<and> pre \<noteq> [] \<and> Q (last pre)" by blast
qed

lemma consumed_one: "Q a \<Longrightarrow> consumed Q (a # r) r"
  unfolding consumed_def by (rule exI[of _ "[a]"]) simp

lemma scanstring_consumed:
  "scanstring s = Some (x, r) \<Longrightarrow> consumed (\<lambda>c. c = 34) s r"
proof (induction "length s" arbitrary: s x r rule: less_induct)
  case less
  show ?case
  proof (cases s)
    case Nil
    with less.prems show ?thesis by simp
  next
    case (Cons c cs)
    have IH: "length s' \<le> length cs \<longrightarrow> consumed (\<lambda>c. c = 34) s' r"
      if "scanstring s' = Some (x', r)" for s' x'
      using less.hyps[OF _ that] Cons by simp
    have q: "consumed (\<lambda>c. c = 34) (34 # r) r" by (rule consumed_one) simp
    from less.prems Cons show ?thesis
      by (auto split: if_splits list.splits option.splits dest!: push_char_Some IH
               intro: q consumed_Cons consumed_drop)
  qed
qed

lemma last_takeWhile: "takeWhile P xs \<noteq> [] \<Longrightarrow> P (last (takeWhile P xs))"
  using last_in_set set_takeWhileD by metis

lemma scan_int_last: "scan_int s = Some (a, r) \<Longrightarrow> is_digit (last a)"
  by (auto simp: scan_int_def last_takeWhile split: list.splits if_splits)

lemma scan_frac_last: "scan_frac s = (a, r) \<Longrightarrow> a = [] \<or> is_digit (last a)"
  by (auto simp: scan_frac_def last_takeWhile split: list.splits if_splits)

lemma scan_exp_last: "scan_exp s = (a, r) \<Longrightarrow> a = [] \<or> is_digit (last a)"
proof (cases s)
  case Nil
  then show "scan_exp s = (a, r) \<Longrightarrow> a = [] \<or> is_digit (last a)" by (simp add: scan_exp_def)
next
  case (Cons e es)
  assume a: "scan_exp s = (a, r)"
  obtain sg es' where sg: "scan_exp_sign es = (sg, es')" by (cases "scan_exp_sign es")
  from a Cons sg show "a = [] \<or> is_digit (last a)"
    by (auto simp: scan_exp_def last_takeWhile split: if_splits)
qed

lemma scan_number_consumed:
  assumes "scan_number maxd s = Some (v, r)"
  shows "consumed is_digit s r"
proof -
  obtain sign s1 where s1: "scan_sign s = (sign, s1)" by (cases "scan_sign s")
  from assms s1 obtain ip s2 where s2: "scan_int s1 = Some (ip, s2)"
    by (auto simp: scan_number_def split: option.splits)
  obtain fp s3 where s3: "scan_frac s2 = (fp, s3)" by (cases "scan_frac s2")
  obtain ep s4 where s4: "scan_exp s3 = (ep, s4)" by (cases "scan_exp s3")
  from assms s1 s2 s3 s4 have r: "r = s4"
    by (simp add: scan_number_def split: if_splits)
  from scan_sign_split[OF s1] scan_int_split[OF s2] scan_frac_split[OF s3]
    scan_exp_split[OF s4] r
  have s: "s = (sign @ ip @ fp @ ep) @ r" and ne: "ip \<noteq> []" by simp_all
  have "is_digit (last (sign @ ip @ fp @ ep))"
  proof (cases "ep = []")
    case False
    with scan_exp_last[OF s4] show ?thesis by simp
  next
    case True
    show ?thesis
    proof (cases "fp = []")
      case False
      with True scan_frac_last[OF s3] show ?thesis by simp
    next
      case fp: True
      with True ne scan_int_last[OF s2] show ?thesis by simp
    qed
  qed
  with s ne show ?thesis unfolding consumed_def by blast
qed



lemma good_end_consumed:
  assumes "consumed Q s r" and "\<And>c. Q c \<Longrightarrow> \<not> py_isspace c" and "good_end r"
  shows "good_end s"
proof -
  from assms(1) obtain pre where p: "s = pre @ r" "pre \<noteq> []" "Q (last pre)"
    unfolding consumed_def by blast
  show ?thesis
  proof (cases "r = []")
    case True
    with p assms(2) show ?thesis by (simp add: good_end_def)
  next
    case False
    with p assms(3) show ?thesis by (simp add: good_end_def)
  qed
qed

lemma good_end_Cons:
  assumes "json_ws c \<or> \<not> py_isspace c" and "good_end cs"
  shows "good_end (c # cs)"
  using assms by (cases "cs = []") (auto simp: good_end_def)

lemma scan_literal_consumed:
  "scan_literal s = Some (v, r) \<Longrightarrow> consumed (\<lambda>c. \<not> py_isspace c) s r"
proof -
  assume a: "scan_literal s = Some (v, r)"
  have c: "consumed (\<lambda>c. \<not> py_isspace c) s (drop n s)"
    if "prefix lit s" "length lit = n" "lit \<noteq> []" "\<not> py_isspace (last lit)" for lit n
  proof -
    from that(1,2) have "s = lit @ drop n s" by (auto simp: prefix_def)
    with that(3,4) show ?thesis unfolding consumed_def by blast
  qed
  from a consider
      "prefix (ascii ''null'') s" "r = drop 4 s"
    | "prefix (ascii ''true'') s" "r = drop 4 s"
    | "prefix (ascii ''false'') s" "r = drop 5 s"
    | "prefix (ascii ''NaN'') s" "r = drop 3 s"
    | "prefix (ascii ''Infinity'') s" "r = drop 8 s"
    | "prefix (ascii ''-Infinity'') s" "r = drop 9 s"
    unfolding scan_literal_def by (auto split: if_splits)
  then show ?thesis
  proof cases
    case 1 from c[OF 1(1), of 4] 1(2) show ?thesis by (simp add: ascii_def py_isspace_def)
  next
    case 2 from c[OF 2(1), of 4] 2(2) show ?thesis by (simp add: ascii_def py_isspace_def)
  next
    case 3 from c[OF 3(1), of 5] 3(2) show ?thesis by (simp add: ascii_def py_isspace_def)
  next
    case 4 from c[OF 4(1), of 3] 4(2) show ?thesis by (simp add: ascii_def py_isspace_def)
  next
    case 5 from c[OF 5(1), of 8] 5(2) show ?thesis by (simp add: ascii_def py_isspace_def)
  next
    case 6 from c[OF 6(1), of 9] 6(2) show ?thesis by (simp add: ascii_def py_isspace_def)
  qed
qed

lemma cons_token_Some: "cons_token t q = Some ts \<Longrightarrow> \<exists>ts'. q = Some ts'"
  by (auto simp: cons_token_def split: option.splits)

lemma tokenize_good_end: "tokenize maxd s = Some toks \<Longrightarrow> good_end s"
proof (induction "length s" arbitrary: s toks rule: less_induct)
  case less
  show ?case
  proof (cases s)
    case Nil
    then show ?thesis by (simp add: good_end_def)
  next
    case (Cons c cs)
    have IH: "good_end s'" if "cons_token t (tokenize maxd s') = Some toks" "length s' < length s"
      for s' t
    proof -
      from that(1) cons_token_Some obtain ts' where "tokenize maxd s' = Some ts'" by blast
      from less.hyps[OF that(2) this] show ?thesis .
    qed
    have dg: "\<not> py_isspace d" if "is_digit d" for d
      using that by (auto simp: is_digit_def py_isspace_def)
    have qt: "\<not> py_isspace d" if "d = 34" for d :: nat
      using that by (simp add: py_isspace_def)
    from less.prems Cons have t: "tokenize maxd (c # cs) = Some toks" by simp
    show ?thesis
    proof (cases "json_ws c")
      case True
      with t have "tokenize maxd cs = Some toks" by simp
      from less.hyps[OF _ this] Cons have "good_end cs" by simp
      with True Cons show ?thesis by (simp add: good_end_Cons)
    next
      case nws: False
      show ?thesis
      proof (cases "c = 123 \<or> c = 125 \<or> c = 91 \<or> c = 93 \<or> c = 44 \<or> c = 58")
        case True
        with t nws have "\<exists>tk. cons_token tk (tokenize maxd cs) = Some toks" by auto
        then obtain tk where "cons_token tk (tokenize maxd cs) = Some toks" by blast
        from IH[OF this] Cons have "good_end cs" by simp
        moreover from True have "\<not> py_isspace c" by (auto simp: py_isspace_def)
        ultimately show ?thesis using Cons by (simp add: good_end_Cons)
      next
        case np: False
        show ?thesis
        proof (cases "c = 34")
          case True
          with t nws obtain x r where x: "scanstring cs = Some (x, r)"
            and r: "cons_token (TScalar (PStr x)) (tokenize maxd r) = Some toks"
            by (auto split: option.splits)
          from scanstring_shorter[OF x] Cons have "length r < length s" by simp
          from IH[OF r this] have "good_end r" .
          from good_end_consumed[OF scanstring_consumed[OF x] qt this] have "good_end cs" .
          with True Cons show ?thesis by (simp add: good_end_Cons py_isspace_def)
        next
          case nq: False
          show ?thesis
          proof (cases "scan_literal (c # cs)")
            case (Some a)
            obtain v r where a: "a = (v, r)" by (cases a)
            with Some t nws np nq have r: "cons_token (TScalar v) (tokenize maxd r) = Some toks"
              by simp
            from Some a have l: "scan_literal s = Some (v, r)" using Cons by simp
            from IH[OF r scan_literal_shorter[OF l]] have "good_end r" .
            from good_end_consumed[OF scan_literal_consumed[OF l] _ this] show ?thesis by simp
          next
            case None
            with t nws np nq obtain v r where v: "scan_number maxd (c # cs) = Some (v, r)"
              and r: "cons_token (TScalar v) (tokenize maxd r) = Some toks"
              by (auto split: option.splits)
            from v have l: "scan_number maxd s = Some (v, r)" using Cons by simp
            from IH[OF r scan_number_shorter[OF l]] have "good_end r" .
            from good_end_consumed[OF scan_number_consumed[OF l] dg this] show ?thesis .
          qed
        qed
      qed
    qed
  qed
qed

lemma tokenize_first:
  assumes "tokenize maxd (c # cs) = Some toks" and "py_isspace c"
  shows "json_ws c"
proof (rule ccontr)
  assume n: "\<not> json_ws c"
  from assms(2) have c: "c < 34 \<or> 125 < c" unfolding py_isspace_def by linarith
  then have p: "c \<noteq> 123" "c \<noteq> 125" "c \<noteq> 91" "c \<noteq> 93" "c \<noteq> 44" "c \<noteq> 58" "c \<noteq> 34"
    and l: "c \<noteq> 110" "c \<noteq> 116" "c \<noteq> 102" "c \<noteq> 78" "c \<noteq> 73" "c \<noteq> 45"
    and d: "\<not> is_digit c"
    unfolding is_digit_def by linarith+
  from l have "scan_literal (c # cs) = None" by (simp add: scan_literal_def ascii_def)
  moreover from l d have "scan_number maxd (c # cs) = None"
    by (simp add: scan_number_def scan_sign_def scan_int_def)
  ultimately show False using assms(1) n p by simp
qed


lemma json_ws_isspace: "json_ws c \<Longrightarrow> py_isspace c"
  by (auto simp: json_ws_def py_isspace_def)

lemma parse_tokens_Nil: "parse_tokens depth ([], WantValue) [] = None"
  by simp

lemma json_loads_tokens:
  assumes "json_loads lim J = Some j"
  shows "trim json_ws J \<noteq> [] \<and> (\<exists>ts. tokenize (int_max_str_digits lim) (trim json_ws J) = Some ts)"
proof -
  from assms obtain ts where ts: "tokenize (int_max_str_digits lim) (trim json_ws J) = Some ts"
    and p: "parse_tokens (max_nesting lim) ([], WantValue) ts = Some j"
    by (auto simp: json_loads_def split: option.splits)
  have "trim json_ws J \<noteq> []"
  proof
    assume "trim json_ws J = []"
    with ts have "ts = []" by simp
    with p show False by simp
  qed
  with ts show ?thesis by blast
qed

lemma trim_ends:
  assumes "trim P s \<noteq> []"
  shows "\<not> P (hd (trim P s))" and "\<not> P (last (trim P s))"
proof -
  let ?a = "dropWhile P s"
  from assms have d: "dropWhile P (rev ?a) \<noteq> []" by (simp add: trim_def)
  then have "\<not> P (hd (dropWhile P (rev ?a)))" by (rule hd_dropWhile)
  with d show "\<not> P (last (trim P s))" by (simp add: trim_def last_rev)
  from trim_decompose[of s P] obtain w1 w2 where s: "s = w1 @ trim P s @ w2"
    and w1: "w1 = takeWhile P s" by blast
  from s w1 have "takeWhile P s @ ?a = takeWhile P s @ trim P s @ w2" by simp
  then have a: "?a = trim P s @ w2" by (simp only: same_append_eq)
  with assms have "?a \<noteq> []" by auto
  then have "\<not> P (hd ?a)" by (rule hd_dropWhile)
  with a assms show "\<not> P (hd (trim P s))" by simp
qed

lemma json_text_ends:
  assumes "json_loads lim J = Some j"
  shows "\<exists>w1 T w2. J = w1 @ T @ w2 \<and> (\<forall>c\<in>set w1. json_ws c) \<and> (\<forall>c\<in>set w2. json_ws c) \<and>
           T \<noteq> [] \<and> \<not> py_isspace (hd T) \<and> \<not> py_isspace (last T)"
proof -
  let ?T = "trim json_ws J"
  from json_loads_tokens[OF assms] obtain ts where ne: "?T \<noteq> []"
    and ts: "tokenize (int_max_str_digits lim) ?T = Some ts" by blast
  from trim_decompose[of J json_ws] ne obtain w1 w2 where J: "J = w1 @ ?T @ w2"
    and w1: "w1 = takeWhile json_ws J" and w2: "rev w2 = takeWhile json_ws (rev J)"
    by blast
  from w1 have a: "\<forall>c\<in>set w1. json_ws c" by (auto dest: set_takeWhileD)
  from w2 have "\<forall>c\<in>set (rev w2). json_ws c" by (auto dest: set_takeWhileD)
  then have b: "\<forall>c\<in>set w2. json_ws c" by simp
  from ne obtain c cs where T: "?T = c # cs" by (cases ?T) auto
  from trim_ends[OF ne] have nh: "\<not> json_ws (hd ?T)" and nl: "\<not> json_ws (last ?T)" .
  from ts have "tokenize (int_max_str_digits lim) (c # cs) = Some ts" by (simp only: T)
  then have "py_isspace c \<Longrightarrow> json_ws c" by (rule tokenize_first)
  moreover from nh[unfolded T] have "\<not> json_ws c" by simp
  ultimately have "\<not> py_isspace c" by blast
  then have h: "\<not> py_isspace (hd ?T)" unfolding T by simp
  from tokenize_good_end[OF ts] ne nl have l: "\<not> py_isspace (last ?T)"
    by (simp add: good_end_def)
  from J a b ne h l show ?thesis by blast
qed

lemma json_text_strip:
  assumes "json_loads lim J = Some j"
  shows "(\<forall>c\<in>set (takeWhile py_isspace J). json_ws c) \<and>
         (\<forall>c\<in>set (takeWhile py_isspace (rev J)). json_ws c) \<and>
         json_loads lim (str_strip J) = Some j"
proof -
  from json_text_ends[OF assms] obtain w1 T w2 where J: "J = w1 @ T @ w2"
    and a: "\<forall>c\<in>set w1. json_ws c" and b: "\<forall>c\<in>set w2. json_ws c"
    and ne: "T \<noteq> []" and h: "\<not> py_isspace (hd T)" and l: "\<not> py_isspace (last T)"
    by blast
  from a b have a': "\<forall>c\<in>set w1. py_isspace c" and b': "\<forall>c\<in>set w2. py_isspace c"
    by (auto intro: json_ws_isspace)
  from ne obtain c cs where T: "T = c # cs" by (cases T) auto
  with h have "takeWhile py_isspace (w1 @ T @ w2) = w1"
    using a' by (simp add: takeWhile_append2)
  with J a have lead: "\<forall>c\<in>set (takeWhile py_isspace J). json_ws c" by simp
  from ne obtain d ds where R: "rev T = d # ds" by (cases "rev T") auto
  then have "T = rev ds @ [d]" by (simp add: rev_swap)
  then have "d = last T" by simp
  with l have nd: "\<not> py_isspace d" by simp
  have "takeWhile py_isspace (rev w2 @ (d # ds) @ rev w1) =
        rev w2 @ takeWhile py_isspace ((d # ds) @ rev w1)"
    by (rule takeWhile_append2) (use b' in simp)
  with nd have "takeWhile py_isspace (rev w2 @ (d # ds) @ rev w1) = rev w2" by simp
  with R have "takeWhile py_isspace (rev w2 @ rev T @ rev w1) = rev w2" by simp
  with J b have trail: "\<forall>c\<in>set (takeWhile py_isspace (rev J)). json_ws c" by simp
  have "trim py_isspace T = T" using ne h l by (rule trim_id)
  with trim_pad[OF a' b', of T] J have "str_strip J = T" by (simp add: str_strip_def)
  moreover from json_loads_pad[OF a b, of lim T] J assms have "json_loads lim T = Some j"
    by simp
  ultimately show ?thesis using lead trail by simp
qed

lemma str_replace_absent:
  assumes old: "old \<noteq> []"
  shows "\<not> sublist old s \<Longrightarrow> str_replace s old new = s"
proof (induction s)
  case Nil
  from old show ?case by (simp add: str_replace_Nil)
next
  case (Cons c cs)
  from Cons.prems have np: "\<not> prefix old (c # cs)" by (auto dest: prefix_imp_sublist)
  from Cons.prems have "\<not> sublist old cs" by (auto simp: sublist_Cons_right)
  then have "str_replace cs old new = cs" by (rule Cons.IH)
  with str_replace_skip[OF old np, of new] show ?case by simp
qed

lemma delete_fences_absent:
  assumes "\<not> sublist fence s"
  shows "delete_fences s = s"
proof -
  have "sublist fence fence_json"
    by (simp add: fence_def fence_json_def ascii_def sublist_Cons_right)
  with assms have "\<not> sublist fence_json s"
    using sublist_order.order_trans by blast
  then have "str_replace s fence_json [] = s" by (rule str_replace_absent[OF fence_chars(4)])
  with str_replace_absent[OF fence_chars(3) assms] show ?thesis by (simp add: delete_fences_def)
qed

lemma sublist_trim: "sublist (trim P s) s"
proof -
  from trim_decompose[of s P] obtain w1 w2 where "s = w1 @ trim P s @ w2" by blast
  then show ?thesis unfolding sublist_def by blast
qed

lemma strip_fences_absent:
  assumes "\<not> sublist fence J"
  shows "strip_fences J = str_strip J"
proof -
  have "sublist (str_strip J) J" unfolding str_strip_def by (rule sublist_trim)
  with assms have "\<not> sublist fence (str_strip J)"
    using sublist_order.order_trans by blast
  then show ?thesis by (simp add: strip_fences_def delete_fences_absent)
qed


text \<open>
  The second half of C5 fails when the data holds a fence marker. The reply is the JSON
  string literal \<^verbatim>\<open>"a```b"\<close>: the decoder applied to it gives \<^verbatim>\<open>a```b\<close>, the agent given the
  reply between the lines \<^verbatim>\<open>```json\<close> and \<^verbatim>\<open>```\<close> gives \<^verbatim>\<open>ab\<close>.
\<close>

theorem fenced_reply_counterexample:
  "json_loads (json_limits stub_env) (34 # ascii ''a```b'' @ [34]) =
     Some (PStr (ascii ''a```b'')) \<and>
   parse_reply stub_env
     (PStr (fence_json @ [10] @ (34 # ascii ''a```b'' @ [34]) @ [10] @ fence)) =
     PStr (ascii ''ab'') \<and>
   PStr (ascii ''ab'') \<noteq> PStr (ascii ''a```b'')"
proof -
  have a: "json_loads (json_limits stub_env) (34 # ascii ''a```b'' @ [34]) =
     Some (PStr (ascii ''a```b''))"
    by (simp add: json_eval stub_limits)
  have s: "strip_fences (fence_json @ [10] @ (34 # ascii ''a```b'' @ [34]) @ [10] @ fence) =
     [10, 34, 97, 98, 34, 10]"
    by (simp add: fence_eval ascii_def)
  have b: "json_loads (json_limits stub_env) [10, 34, 97, 98, 34, 10] = Some (PStr [97, 98])"
    by (simp add: json_eval stub_limits)
  have c: "ascii ''ab'' = [97, 98]" by (simp add: ascii_def)
  have d: "ascii ''ab'' \<noteq> ascii ''a```b''" by (simp add: ascii_def)
  from a s b c d show ?thesis by (simp add: parse_reply_def)
qed


text \<open>
  C5, amended. Let \<open>J\<close> be a JSON reply: the decoder, under the limits in force, gives
  \<open>j\<close> for it. If \<open>J\<close> holds no occurrence of \<^verbatim>\<open>```\<close>, then the agent given \<open>J\<close> between the
  lines \<^verbatim>\<open>```json\<close> and \<^verbatim>\<open>```\<close> and the agent given \<open>J\<close> both return \<open>j\<close>: stripping the fences
  and then parsing equals parsing the unwrapped reply. If \<open>J\<close> holds the marker, then
  whenever the agent given \<open>J\<close> decodes it to some \<open>v\<close>, the agent given the fenced \<open>J\<close>
  returns the same \<open>v\<close>.
\<close>

theorem fenced_json_reply:
  assumes json: "json_loads (json_limits env) J = Some j"
  shows "(\<not> sublist fence J \<longrightarrow>
            parse_reply env (PStr (fence_json @ [10] @ J @ [10] @ fence)) = j \<and>
            parse_reply env (PStr J) = j) \<and>
         (json_loads (json_limits env) (strip_fences J) = Some v \<longrightarrow>
            parse_reply env (PStr (fence_json @ [10] @ J @ [10] @ fence)) = v \<and>
            parse_reply env (PStr J) = v)"
proof -
  from json_text_strip[OF json]
  have lead: "\<forall>c\<in>set (takeWhile py_isspace J). json_ws c"
    and trail: "\<forall>c\<in>set (takeWhile py_isspace (rev J)). json_ws c"
    and strip: "json_loads (json_limits env) (str_strip J) = Some j" by simp_all
  have a: "parse_reply env (PStr (fence_json @ [10] @ J @ [10] @ fence)) = j \<and>
           parse_reply env (PStr J) = j" if "\<not> sublist fence J"
  proof -
    from strip strip_fences_absent[OF that]
    have "json_loads (json_limits env) (strip_fences J) = Some j" by simp
    from fenced_reply_decoded[OF this lead trail] show ?thesis .
  qed
  have b: "parse_reply env (PStr (fence_json @ [10] @ J @ [10] @ fence)) = v \<and>
           parse_reply env (PStr J) = v"
    if "json_loads (json_limits env) (strip_fences J) = Some v"
    using fenced_reply_decoded[OF that lead trail] .
  from a b show ?thesis by blast
qed


theorem fenced_json_reply_witness:
  "parse_reply stub_env (PStr (fence_json @ [10] @ ascii ''[1, 2]'' @ [10] @ fence)) =
     PList [PInt 1, PInt 2] \<and>
   parse_reply stub_env (PStr (ascii ''[1, 2]'')) = PList [PInt 1, PInt 2]"
proof -
  have j: "json_loads (json_limits stub_env) (ascii ''[1, 2]'') = Some (PList [PInt 1, PInt 2])"
    by (simp add: json_eval stub_limits)
  have "set (ascii ''[1, 2]'') \<inter> {96} = {}" by (simp add: ascii_def)
  then have n: "\<not> sublist fence (ascii ''[1, 2]'')"
    using set_mono_sublist[of fence "ascii ''[1, 2]''"] by (auto simp: fence_chars)
  from fenced_json_reply[OF j, where v = "PList [PInt 1, PInt 2]"] n array_reply
  show ?thesis by blast
qed

section \<open>Fence markers inside the data\<close>

lemma scanstring_plain:
  assumes "\<forall>c\<in>set b. 32 \<le> c \<and> c \<noteq> 34 \<and> c \<noteq> 92"
  shows "scanstring (b @ 34 # rest) = Some (b, rest)"
  using assms by (induction b) (auto simp: push_char_def)

lemma json_loads_string_literal:
  assumes "\<forall>c\<in>set b. 32 \<le> c \<and> c \<noteq> 34 \<and> c \<noteq> 92"
  shows "json_loads lim (34 # b @ [34]) = Some (PStr b)"
proof -
  have "trim json_ws (34 # b @ [34]) = 34 # b @ [34]"
    by (rule trim_id) (simp_all add: json_ws_def)
  moreover have "tokenize maxd (34 # b @ [34]) = Some [TScalar (PStr b)]" for maxd
    using scanstring_plain[OF assms, of "[]"] by (simp add: json_ws_def cons_token_def)
  ultimately show ?thesis
    by (simp add: json_loads_def parse_step_def begin_value_def complete_value_def)
qed

lemma strip_fences_string_literal:
  "strip_fences (34 # b @ [34]) = 34 # delete_fences b @ [34]"
proof -
  have "str_strip (34 # b @ [34]) = 34 # b @ [34]"
    unfolding str_strip_def by (rule trim_id) (simp_all add: py_isspace_def)
  moreover have "delete_fences ([34] @ b @ [34]) = [34] @ delete_fences b @ [34]"
    by (rule delete_fences_pad) (simp_all add: fence_chars)
  ultimately show ?thesis by (simp add: strip_fences_delete)
qed

lemma delete_fences_set: "set (delete_fences b) \<subseteq> set b"
  using set_str_replace[OF fence_chars(3), of "str_replace b fence_json []"]
    set_str_replace[OF fence_chars(4), of b]
  by (auto simp: delete_fences_def)

lemma delete_fences_no_fence: "\<not> sublist fence (delete_fences b)"
  using triple_deleted[of 96] by (simp add: delete_fences_def fence_def ascii_def)


text \<open>
  C10. The fence deletion is a replacement over the whole reply: in the text handed to
  the decoder no occurrence of \<^verbatim>\<open>```\<close> (and so none of \<^verbatim>\<open>```json\<close>) is left, wherever it
  stood. Data is lost with it: for every reply that is a JSON string literal whose
  characters need no escape and which holds \<^verbatim>\<open>```\<close>, the decoder applied to the reply as
  it is gives the string itself, and the agent gives the string with the markers
  deleted, which is a different string.
\<close>

theorem fence_deletion_is_global:
  assumes plain: "\<forall>c\<in>set body. 32 \<le> c \<and> c \<noteq> 34 \<and> c \<noteq> 92"
      and has: "sublist fence body"
  shows "\<not> sublist fence (strip_fences r) \<and>
         \<not> sublist fence_json (strip_fences r) \<and>
         json_loads lim (34 # body @ [34]) = Some (PStr body) \<and>
         parse_reply env (PStr (34 # body @ [34])) = PStr (delete_fences body) \<and>
         delete_fences body \<noteq> body"
proof -
  have a: "\<not> sublist fence (strip_fences r)" by (rule strip_fences_no_fence)
  have "sublist fence fence_json" 
    by (simp add: fence_def fence_json_def ascii_def sublist_Cons_right)
  with a have b: "\<not> sublist fence_json (strip_fences r)"
    using sublist_order.order_trans by blast
  have c: "json_loads lim (34 # body @ [34]) = Some (PStr body)"
    by (rule json_loads_string_literal[OF plain])
  from plain delete_fences_set[of body]
  have "\<forall>c\<in>set (delete_fences body). 32 \<le> c \<and> c \<noteq> 34 \<and> c \<noteq> 92" by blast
  from json_loads_string_literal[OF this]
  have d: "parse_reply env (PStr (34 # body @ [34])) = PStr (delete_fences body)"
    by (simp add: parse_reply_def strip_fences_string_literal)
  from has delete_fences_no_fence[of body] have e: "delete_fences body \<noteq> body" by auto
  from a b c d e show ?thesis by blast
qed


theorem fence_deletion_is_global_witness:
  "json_loads (json_limits stub_env) (34 # ascii ''a```b'' @ [34]) =
     Some (PStr (ascii ''a```b'')) \<and>
   parse_reply stub_env (PStr (34 # ascii ''a```b'' @ [34])) = PStr (ascii ''ab'')"
proof -
  have p: "\<forall>c\<in>set (ascii ''a```b''). 32 \<le> c \<and> c \<noteq> 34 \<and> c \<noteq> 92"
    by (simp add: ascii_def)
  have "ascii ''a```b'' = [97] @ fence @ [98]" by (simp add: ascii_def fence_def)
  then have h: "sublist fence (ascii ''a```b'')" by (simp only: sublist_appendI)
  have d: "delete_fences (ascii ''a```b'') = ascii ''ab''"
    by (simp add: delete_fences_def fence_def fence_json_def ascii_def str_replace.simps)
  from fence_deletion_is_global[OF p h, where env = stub_env and lim = "json_limits stub_env"] d
  show ?thesis by simp
qed


text \<open>The same for an object: the reply \<^verbatim>\<open>{"k": "```x"}\<close> is decoded by the agent as \<^verbatim>\<open>{"k": "x"}\<close>.\<close>

lemma fence_in_object_example:
  "json_loads (json_limits stub_env) [123, 34, 107, 34, 58, 32, 34, 96, 96, 96, 120, 34, 125] =
     Some (PDict [([107], PStr [96, 96, 96, 120])]) \<and>
   parse_reply stub_env (PStr [123, 34, 107, 34, 58, 32, 34, 96, 96, 96, 120, 34, 125]) =
     PDict [([107], PStr [120])]"
proof -
  have a: "json_loads (json_limits stub_env) [123, 34, 107, 34, 58, 32, 34, 96, 96, 96, 120, 34, 125] =
     Some (PDict [([107], PStr [96, 96, 96, 120])])"
    by (simp add: json_eval stub_limits)
  have s: "strip_fences [123, 34, 107, 34, 58, 32, 34, 96, 96, 96, 120, 34, 125] =
     [123, 34, 107, 34, 58, 32, 34, 120, 34, 125]"
    by (simp add: fence_eval ascii_def)
  have b: "json_loads (json_limits stub_env) [123, 34, 107, 34, 58, 32, 34, 120, 34, 125] =
     Some (PDict [([107], PStr [120])])"
    by (simp add: json_eval stub_limits)
  from a s b show ?thesis by (simp add: parse_reply_def)
qed


section \<open>The parse-error record\<close>

text \<open>
  What holds of the error record for every reply string that the decoder rejects after
  fence deletion: one key, and a value that is the fixed message followed by the reply
  after trimming and fence deletion.
\<close>

lemma parse_error_record_general:
  assumes "json_loads (json_limits env) (strip_fences r) = None"
  shows "parse_reply env (PStr r) = PDict [(parse_error_key, PStr (parse_error_msg @ strip_fences r))]"
  using assms by (simp add: parse_reply_def parse_error_record_def)


text \<open>
  C4 at a failing input. The reply is a fenced block that holds \<^verbatim>\<open>[1, 2,]\<close>, which is not
  JSON. The agent returns the one-key record and does not raise, but the value holds
  the text after trimming and fence deletion: the reply as it was received is not
  contained in it, although the comment of line 94 and the label in the message both
  call it the original response.
\<close>

theorem parse_error_shows_stripped_text:
  "parse_reply stub_env (PStr bad_fenced_reply) =
     PDict [(parse_error_key, PStr (parse_error_msg @ [10] @ ascii ''[1, 2,]'' @ [10]))] \<and>
   \<not> sublist bad_fenced_reply (parse_error_msg @ [10] @ ascii ''[1, 2,]'' @ [10])"
proof -
  have s: "strip_fences bad_fenced_reply = [10] @ ascii ''[1, 2,]'' @ [10]"
    by (simp add: bad_fenced_reply_def fence_eval ascii_def)
  have n: "json_loads (json_limits stub_env) ([10] @ ascii ''[1, 2,]'' @ [10]) = None"
    by (simp add: json_eval stub_limits)
  have a: "parse_reply stub_env (PStr bad_fenced_reply) =
     PDict [(parse_error_key, PStr (parse_error_msg @ [10] @ ascii ''[1, 2,]'' @ [10]))]"
    using s n by (simp add: parse_reply_def parse_error_record_def)
  have b: "\<not> sublist bad_fenced_reply (parse_error_msg @ [10] @ ascii ''[1, 2,]'' @ [10])"
  proof
    assume "sublist bad_fenced_reply (parse_error_msg @ [10] @ ascii ''[1, 2,]'' @ [10])"
    then have "set bad_fenced_reply \<subseteq> set (parse_error_msg @ [10] @ ascii ''[1, 2,]'' @ [10])"
      by (rule set_mono_sublist)
    then show False
      by (simp add: bad_fenced_reply_def fence_json_def fence_def parse_error_msg_def ascii_def)
  qed
  from a b show ?thesis by blast
qed


end
